theory Spec2Isabelle
  imports Complex_Main "HOL-Library.Char_ord" "HOL-Library.List_Lexorder" "HOL-Library.Product_Lexorder"
begin

section \<open>Strings\<close>

text \<open>
  The program is Python 2 (\<^verbatim>\<open>LearnEnglishBySubtitle.py\<close> calls \<^verbatim>\<open>reload(sys)\<close> and
  \<^verbatim>\<open>unicode\<close>). Text is modelled as \<^typ>\<open>string\<close>, one \<^typ>\<open>char\<close> per character of
  the source string.
\<close>

text \<open>\<^verbatim>\<open>str.split(sep)\<close> for a one-character separator: \<^verbatim>\<open>''.split('\n') == ['']\<close>.\<close>

fun split :: "char \<Rightarrow> string \<Rightarrow> string list" where
  "split sep [] = [[]]"
| "split sep (c # cs) =
     (if c = sep then [] # split sep cs
      else (case split sep cs of [] \<Rightarrow> [[c]] | l # ls \<Rightarrow> (c # l) # ls))"

text \<open>\<^verbatim>\<open>sep.join(lines)\<close>.\<close>

fun join :: "string \<Rightarrow> string list \<Rightarrow> string" where
  "join sep [] = []"
| "join sep [x] = x"
| "join sep (x # y # ys) = x @ sep @ join sep (y # ys)"

section \<open>Content legalisation\<close>

text \<open>
  \<^verbatim>\<open>legal_content = '\n'.join(line for line in content.split('\n') if line)\<close>.
  The warning that \<^verbatim>\<open>make_legal_content\<close> logs when the content changed does not
  influence the returned value and is left out.
\<close>

definition make_legal_content :: "string \<Rightarrow> string" where
  "make_legal_content content =
     join ''\<newline>'' (filter (\<lambda>line. line \<noteq> []) (split CHR ''\<newline>'' content))"

text \<open>The lines that survive legalisation.\<close>

definition legal_lines :: "string \<Rightarrow> string list" where
  "legal_lines content = filter (\<lambda>line. line \<noteq> []) (split CHR ''\<newline>'' content)"

section \<open>Errors and Python values\<close>

text \<open>
  The exceptions the modelled code can raise. \<open>AttributeError\<close> carries the name of the
  missing attribute, \<open>ShouldSkipException\<close> its message, and \<open>SRTParseError\<close> carries
  \<^verbatim>\<open>expected_start\<close>, \<^verbatim>\<open>actual_start\<close> and \<^verbatim>\<open>unmatched_content\<close>.
\<close>

datatype py_error =
    ValueError
  | OverflowError
  | TypeError
  | AttributeError string
  | ShouldSkipException string
  | SRTParseError nat nat string

text \<open>Sequencing of computations that may raise.\<close>

definition bind_err :: "py_error + 'a \<Rightarrow> ('a \<Rightarrow> py_error + 'b) \<Rightarrow> py_error + 'b" where
  "bind_err m f = (case m of Inl e \<Rightarrow> Inl e | Inr v \<Rightarrow> f v)"

text \<open>
  Python slicing \<^verbatim>\<open>xs[lo:hi]\<close> with step 1: a negative bound counts from the end, and
  bounds are clamped to the sequence.
\<close>

definition slice_bound :: "int \<Rightarrow> int \<Rightarrow> int" where
  "slice_bound n i = (if i < 0 then max 0 (n + i) else min n i)"

definition py_slice :: "'a list \<Rightarrow> int option \<Rightarrow> int option \<Rightarrow> 'a list" where
  "py_slice xs lo hi =
     (let n = int (length xs);
          a = (case lo of None \<Rightarrow> 0 | Some i \<Rightarrow> slice_bound n i);
          b = (case hi of None \<Rightarrow> n | Some j \<Rightarrow> slice_bound n j)
      in take (nat (b - a)) (drop (nat a) xs))"

section \<open>Integers as text\<close>

definition isdigit :: "char \<Rightarrow> bool" where
  "isdigit c \<longleftrightarrow> CHR ''0'' \<le> c \<and> c \<le> CHR ''9''"

text \<open>C's \<^verbatim>\<open>isspace\<close>: space, \<^verbatim>\<open>\t \n \v \f \r\<close>.\<close>

definition isspace :: "char \<Rightarrow> bool" where
  "isspace c \<longleftrightarrow> c \<in> set [CHR '' '', CHR 0x09, CHR 0x0A, CHR 0x0B, CHR 0x0C, CHR 0x0D]"

definition digit_val :: "char \<Rightarrow> int" where
  "digit_val c = int (of_char c) - 48"

fun digits_val :: "int \<Rightarrow> string \<Rightarrow> int" where
  "digits_val acc [] = acc"
| "digits_val acc (c # cs) = digits_val (acc * 10 + digit_val c) cs"

text \<open>
  \<^verbatim>\<open>int(x)\<close> on a string, base 10, as Python 2 reads it: leading white space, an optional
  sign, white space again (Python 2's \<^verbatim>\<open>PyOS_strtol\<close> skips it after the sign), at least
  one digit, trailing white space. Anything else raises \<^verbatim>\<open>ValueError\<close>. White space is
  that of byte strings.
\<close>

definition py_int :: "string \<Rightarrow> py_error + int" where
  "py_int s =
     (let s1 = dropWhile isspace s;
          sign = (case s1 of [] \<Rightarrow> 1 | c # cs \<Rightarrow> if c = CHR ''-'' then - 1 else (1::int));
          s2 = (case s1 of [] \<Rightarrow> [] | c # cs \<Rightarrow> if c = CHR ''+'' \<or> c = CHR ''-'' then cs else s1);
          s3 = dropWhile isspace s2;
          ds = takeWhile isdigit s3;
          rest = dropWhile isspace (dropWhile isdigit s3)
      in if ds = [] \<or> rest \<noteq> [] then Inl ValueError else Inr (sign * digits_val 0 ds))"

definition digit_char :: "nat \<Rightarrow> char" where
  "digit_char d = char_of (48 + d)"

text \<open>The decimal digits of a natural number, as \<^verbatim>\<open>'%d'\<close> prints them.\<close>

fun digits_of :: "nat \<Rightarrow> string" where
  "digits_of n = (if n < 10 then [digit_char n] else digits_of (n div 10) @ [digit_char (n mod 10)])"

declare digits_of.simps [simp del]

text \<open>
  \<^verbatim>\<open>'%0wd' % i\<close>: the digits are padded with zeros to the width \<open>w\<close>, the sign of a negative
  number counts towards the width and precedes the zeros.
\<close>

definition zfill :: "nat \<Rightarrow> string \<Rightarrow> string" where
  "zfill w s = replicate (w - length s) CHR ''0'' @ s"

definition fmt_d :: "nat \<Rightarrow> int \<Rightarrow> string" where
  "fmt_d w i =
     (if i < 0 then CHR ''-'' # zfill (w - 1) (digits_of (nat (- i)))
      else zfill w (digits_of (nat i)))"

section \<open>Durations\<close>

text \<open>
  A \<^verbatim>\<open>datetime.timedelta\<close> is an exact count of microseconds; its normalised fields
  \<^verbatim>\<open>days\<close>, \<^verbatim>\<open>seconds\<close> (\<open>0 \<le> seconds < 86400\<close>) and \<^verbatim>\<open>microseconds\<close>
  (\<open>0 \<le> microseconds < 1000000\<close>) are read off by floor division.
\<close>

type_synonym timedelta = int

definition days :: "timedelta \<Rightarrow> int" where
  "days td = td div 86400000000"

definition seconds :: "timedelta \<Rightarrow> int" where
  "seconds td = (td mod 86400000000) div 1000000"

definition microseconds :: "timedelta \<Rightarrow> int" where
  "microseconds td = td mod 1000000"

definition ZERO_TIMEDELTA :: timedelta where
  "ZERO_TIMEDELTA = 0"

text \<open>
  \<^verbatim>\<open>timedelta(hours=h, minutes=m, seconds=s, milliseconds=ms)\<close> on integers. The
  constructor raises \<^verbatim>\<open>OverflowError\<close> when the normalised number of days has a magnitude
  above 999999999.
\<close>

definition timedelta :: "int \<Rightarrow> int \<Rightarrow> int \<Rightarrow> int \<Rightarrow> py_error + timedelta" where
  "timedelta hours minutes secs milliseconds =
     (let td = hours * 3600000000 + minutes * 60000000 + secs * 1000000 + milliseconds * 1000
      in if - 999999999 \<le> days td \<and> days td \<le> 999999999 then Inr td else Inl OverflowError)"

section \<open>Timestamp codec\<close>

definition TS_LEN :: nat where
  "TS_LEN = 12"

definition SECONDS_IN_HOUR :: int where "SECONDS_IN_HOUR = 3600"
definition SECONDS_IN_MINUTE :: int where "SECONDS_IN_MINUTE = 60"
definition HOURS_IN_DAY :: int where "HOURS_IN_DAY = 24"
definition MICROSECONDS_IN_MILLISECOND :: int where "MICROSECONDS_IN_MILLISECOND = 1000"

text \<open>
  \<^verbatim>\<open>timedelta_to_srt_timestamp\<close>: \<^verbatim>\<open>divmod\<close> is floor division with its remainder, and
  the result is \<^verbatim>\<open>'%02d:%02d:%02d,%03d' % (hrs, mins, secs, msecs)\<close>.
\<close>

definition timedelta_to_srt_timestamp :: "timedelta \<Rightarrow> string" where
  "timedelta_to_srt_timestamp timedelta_timestamp =
     (let hrs0 = seconds timedelta_timestamp div SECONDS_IN_HOUR;
          secs_remainder = seconds timedelta_timestamp mod SECONDS_IN_HOUR;
          hrs = hrs0 + days timedelta_timestamp * HOURS_IN_DAY;
          mins = secs_remainder div SECONDS_IN_MINUTE;
          secs = secs_remainder mod SECONDS_IN_MINUTE;
          msecs = microseconds timedelta_timestamp div MICROSECONDS_IN_MILLISECOND
      in fmt_d 2 hrs @ '':'' @ fmt_d 2 mins @ '':'' @ fmt_d 2 secs @ '','' @ fmt_d 3 msecs)"

text \<open>
  \<^verbatim>\<open>srt_timestamp_to_timedelta\<close>: the length check, then \<^verbatim>\<open>int\<close> on
  \<^verbatim>\<open>ts[:-10]\<close>, \<^verbatim>\<open>ts[-9:-7]\<close>, \<^verbatim>\<open>ts[-6:-4]\<close>, \<^verbatim>\<open>ts[-3:]\<close> in this order, then the
  \<^verbatim>\<open>timedelta\<close> constructor.
\<close>

definition srt_timestamp_to_timedelta :: "string \<Rightarrow> py_error + timedelta" where
  "srt_timestamp_to_timedelta ts =
     (if length ts < TS_LEN then Inl ValueError
      else
        bind_err (py_int (py_slice ts None (Some (- 10)))) (\<lambda>hrs.
        bind_err (py_int (py_slice ts (Some (- 9)) (Some (- 7)))) (\<lambda>mins.
        bind_err (py_int (py_slice ts (Some (- 6)) (Some (- 4)))) (\<lambda>secs.
        bind_err (py_int (py_slice ts (Some (- 3)) None)) (\<lambda>msecs.
        timedelta hrs mins secs msecs)))))"

text \<open>The shape \<^verbatim>\<open>H..H:MM:SS,mmm\<close>: digits, with at least two for the hours.\<close>

definition srt_timestamp_shape :: "string \<Rightarrow> bool" where
  "srt_timestamp_shape ts \<longleftrightarrow>
     12 \<le> length ts
     \<and> list_all isdigit (py_slice ts None (Some (- 10)))
     \<and> py_slice ts (Some (- 10)) (Some (- 9)) = '':''
     \<and> list_all isdigit (py_slice ts (Some (- 9)) (Some (- 7)))
     \<and> py_slice ts (Some (- 7)) (Some (- 6)) = '':''
     \<and> list_all isdigit (py_slice ts (Some (- 6)) (Some (- 4)))
     \<and> py_slice ts (Some (- 4)) (Some (- 3)) = '',''
     \<and> list_all isdigit (py_slice ts (Some (- 3)) None)"

text \<open>The four numbers the formatter prints.\<close>

definition ts_hrs :: "timedelta \<Rightarrow> int" where
  "ts_hrs td = seconds td div 3600 + days td * 24"

definition ts_mins :: "timedelta \<Rightarrow> int" where
  "ts_mins td = seconds td mod 3600 div 60"

definition ts_secs :: "timedelta \<Rightarrow> int" where
  "ts_secs td = seconds td mod 3600 mod 60"

definition ts_msecs :: "timedelta \<Rightarrow> int" where
  "ts_msecs td = microseconds td div 1000"

text \<open>The shape \<^verbatim>\<open>HH:MM:SS,mmm\<close> with exactly two digits for the hours.\<close>

definition srt_timestamp_exact :: "string \<Rightarrow> bool" where
  "srt_timestamp_exact ts \<longleftrightarrow> srt_timestamp_shape ts \<and> length ts = 12"

section \<open>The Subtitle entity\<close>

text \<open>
  \<^verbatim>\<open>Subtitle.__init__(self, index, content, start, start_timedelta, end, end_timedelta,
  proprietary)\<close> stores its arguments in the attributes \<^verbatim>\<open>index_\<close>, \<^verbatim>\<open>start_ts_\<close>,
  \<^verbatim>\<open>start_timedelta_\<close>, \<^verbatim>\<open>end_ts_\<close>, \<^verbatim>\<open>end_timedelta_\<close>, \<^verbatim>\<open>contents_\<close> and
  \<^verbatim>\<open>proprietary\<close>. As its docstring says and as both constructors of this program do
  (\<^verbatim>\<open>parse\<close> and \<^verbatim>\<open>make_a_subtitle\<close>), \<^verbatim>\<open>start\<close> and \<^verbatim>\<open>end\<close> are timestamp texts and
  \<^verbatim>\<open>start_timedelta\<close>, \<^verbatim>\<open>end_timedelta\<close> are durations; \<^verbatim>\<open>proprietary\<close> is a text or
  \<^verbatim>\<open>None\<close>. A field of the record is named as the attribute without its final underscore.
\<close>

record Subtitle =
  index :: int
  start_ts :: string
  start_timedelta :: timedelta
  end_ts :: string
  end_timedelta :: timedelta
  contents :: string
  proprietary :: "string option"

definition Subtitle_init ::
  "int \<Rightarrow> string \<Rightarrow> string \<Rightarrow> timedelta \<Rightarrow> string \<Rightarrow> timedelta \<Rightarrow> string option \<Rightarrow> Subtitle" where
  "Subtitle_init idx content start start_td end end_td prop =
     \<lparr>index = idx, start_ts = start, start_timedelta = start_td,
      end_ts = end, end_timedelta = end_td, contents = content,
      proprietary = prop\<rparr>"

text \<open>The parameter names of \<^verbatim>\<open>__init__\<close>, and those without a default value.\<close>

definition Subtitle_init_params :: "string list" where
  "Subtitle_init_params =
     [''index'', ''content'', ''start'', ''start_timedelta'', ''end'', ''end_timedelta'',
      ''proprietary'']"

definition Subtitle_init_required :: "string list" where
  "Subtitle_init_required = [''index'', ''content'']"

text \<open>Values an attribute can hold.\<close>

datatype pyval = PNone | PInt int | PStr string | PTimedelta timedelta

text \<open>\<^verbatim>\<open>vars(subtitle)\<close>: the instance dictionary, attribute names with their values.\<close>

definition vars :: "Subtitle \<Rightarrow> (string \<times> pyval) list" where
  "vars sub =
     [(''index_'', PInt (index sub)),
      (''start_ts_'', PStr (start_ts sub)),
      (''start_timedelta_'', PTimedelta (start_timedelta sub)),
      (''end_ts_'', PStr (end_ts sub)),
      (''end_timedelta_'', PTimedelta (end_timedelta sub)),
      (''contents_'', PStr (contents sub)),
      (''proprietary'', (case proprietary sub of None \<Rightarrow> PNone | Some p \<Rightarrow> PStr p))]"

text \<open>
  Reading an attribute by name. The class defines no data attribute of its own, so a name
  that is not in the instance dictionary raises \<^verbatim>\<open>AttributeError\<close>.
\<close>

definition getattr :: "Subtitle \<Rightarrow> string \<Rightarrow> py_error + pyval" where
  "getattr sub name =
     (case map_of (vars sub) name of None \<Rightarrow> Inl (AttributeError name) | Some v \<Rightarrow> Inr v)"

text \<open>
  \<^verbatim>\<open>Subtitle(**kwargs)\<close>: Python binds every keyword to the parameter of that name and
  raises \<^verbatim>\<open>TypeError\<close> for a keyword that names no parameter, or when a parameter without
  default gets no value. The call site of this program passes \<^verbatim>\<open>vars(subtitle)\<close>; were
  the binding to succeed, the new object would hold the same values.
\<close>

definition Subtitle_from_vars :: "Subtitle \<Rightarrow> py_error + Subtitle" where
  "Subtitle_from_vars subtitle =
     (let kwargs = map fst (vars subtitle)
      in if \<exists>k \<in> set kwargs. k \<notin> set Subtitle_init_params then Inl TypeError
         else if \<exists>p \<in> set Subtitle_init_required. p \<notin> set kwargs then Inl TypeError
         else Inr subtitle)"

text \<open>
  \<^verbatim>\<open>__lt__\<close>, which \<^verbatim>\<open>sorted\<close> uses: the order of the pair \<^verbatim>\<open>(start_ts_, end_ts_)\<close>, two
  texts, compared as Python compares strings (character by character, a proper prefix
  first).
\<close>

definition Subtitle_lt :: "Subtitle \<Rightarrow> Subtitle \<Rightarrow> bool" where
  "Subtitle_lt self other \<longleftrightarrow>
     start_ts self < start_ts other
     \<or> (start_ts self = start_ts other \<and> end_ts self < end_ts other)"

text \<open>\<^verbatim>\<open>make_a_subtitle\<close>; the arguments \<^verbatim>\<open>_strict\<close> and \<^verbatim>\<open>_eol\<close> are not used.\<close>

definition make_a_subtitle ::
  "int \<Rightarrow> string \<Rightarrow> string \<Rightarrow> string \<Rightarrow> string option \<Rightarrow> py_error + Subtitle" where
  "make_a_subtitle idx start content end prop =
     bind_err (srt_timestamp_to_timedelta start) (\<lambda>start_td.
     bind_err (srt_timestamp_to_timedelta end) (\<lambda>end_td.
     Inr (Subtitle_init idx content start start_td end end_td prop)))"

section \<open>Regular expressions\<close>

text \<open>
  The part of Python's \<^verbatim>\<open>re\<close> that \<^verbatim>\<open>SRT_REGEX\<close> uses, with the backtracking order of the
  library: character classes, concatenation, alternation (left first), greedy and lazy
  repetition, capturing groups, look-ahead and \<^verbatim>\<open>\Z\<close>.
\<close>

datatype regex =
    Chars "char \<Rightarrow> bool"
  | Eps
  | EndZ
  | Seq regex regex
  | Alt regex regex
  | Star regex
  | LazyStar regex
  | Group nat regex
  | Look regex

type_synonym captures = "(nat \<times> string) list"
type_synonym match_result = "(string \<times> captures) option"
type_synonym continuation = "string \<Rightarrow> captures \<Rightarrow> match_result"

text \<open>
  A matcher takes the rest of the input, the groups captured so far and a continuation
  for what follows; \<open>None\<close> makes the caller try its next alternative. A repetition
  takes the body as often as it can (greedy) or as seldom as it can (lazy); an
  iteration that consumes nothing ends the repetition, as in the library. The counter
  bounds the iterations by the length of the input, which iterations that consume at
  least one character cannot exceed.
\<close>

primrec star_greedy ::
  "nat \<Rightarrow> (string \<Rightarrow> captures \<Rightarrow> continuation \<Rightarrow> match_result) \<Rightarrow> string \<Rightarrow> captures
   \<Rightarrow> continuation \<Rightarrow> match_result" where
  "star_greedy 0 body s c k = k s c"
| "star_greedy (Suc n) body s c k =
     (case body s c (\<lambda>s' c'. if length s' < length s then star_greedy n body s' c' k else None) of
        Some r \<Rightarrow> Some r
      | None \<Rightarrow> k s c)"

primrec star_lazy ::
  "nat \<Rightarrow> (string \<Rightarrow> captures \<Rightarrow> continuation \<Rightarrow> match_result) \<Rightarrow> string \<Rightarrow> captures
   \<Rightarrow> continuation \<Rightarrow> match_result" where
  "star_lazy 0 body s c k = k s c"
| "star_lazy (Suc n) body s c k =
     (case k s c of
        Some r \<Rightarrow> Some r
      | None \<Rightarrow> body s c (\<lambda>s' c'. if length s' < length s then star_lazy n body s' c' k else None))"

primrec rmatch :: "regex \<Rightarrow> string \<Rightarrow> captures \<Rightarrow> continuation \<Rightarrow> match_result" where
  "rmatch (Chars P) s c k = (case s of [] \<Rightarrow> None | x # xs \<Rightarrow> if P x then k xs c else None)"
| "rmatch Eps s c k = k s c"
| "rmatch EndZ s c k = (if s = [] then k s c else None)"
| "rmatch (Seq r1 r2) s c k = rmatch r1 s c (\<lambda>s' c'. rmatch r2 s' c' k)"
| "rmatch (Alt r1 r2) s c k =
     (case rmatch r1 s c k of Some r \<Rightarrow> Some r | None \<Rightarrow> rmatch r2 s c k)"
| "rmatch (Star r) s c k = star_greedy (length s) (rmatch r) s c k"
| "rmatch (LazyStar r) s c k = star_lazy (length s) (rmatch r) s c k"
| "rmatch (Group n r) s c k =
     rmatch r s c (\<lambda>s' c'. k s' ((n, take (length s - length s') s) # c'))"
| "rmatch (Look r) s c k =
     (case rmatch r s c (\<lambda>s' c'. Some (s', c')) of None \<Rightarrow> None | Some (s', c') \<Rightarrow> k s c')"

text \<open>One match attempt at the start of \<open>s\<close>: the number of characters matched and the groups.\<close>

definition match_here :: "regex \<Rightarrow> string \<Rightarrow> (nat \<times> captures) option" where
  "match_here r s =
     (case rmatch r s [] (\<lambda>s' c'. Some (s', c')) of
        None \<Rightarrow> None
      | Some (s', c') \<Rightarrow> Some (length s - length s', c'))"

text \<open>
  \<^verbatim>\<open>finditer\<close>: the leftmost match from the current position, then the search goes on at
  its end (one character further after an empty match). A match is its start offset, its
  end offset and its groups. None of the patterns here looks behind the current
  position, so a match attempt depends on the rest of the input only.
\<close>

function finditer_from :: "regex \<Rightarrow> nat \<Rightarrow> string \<Rightarrow> (nat \<times> nat \<times> captures) list" where
  "finditer_from r pos s =
     (case match_here r s of
        None \<Rightarrow> (case s of [] \<Rightarrow> [] | x # xs \<Rightarrow> finditer_from r (Suc pos) xs)
      | Some (n, c) \<Rightarrow>
          (pos, pos + n, c) #
            (if 0 < n \<and> n \<le> length s then finditer_from r (pos + n) (drop n s)
             else (case s of [] \<Rightarrow> [] | x # xs \<Rightarrow> finditer_from r (Suc pos) xs)))"
  by pat_completeness auto
termination
  by (relation "measure (\<lambda>(r, pos, s). length s)") auto

declare finditer_from.simps [simp del]

definition finditer :: "regex \<Rightarrow> string \<Rightarrow> (nat \<times> nat \<times> captures) list" where
  "finditer r s = finditer_from r 0 s"

text \<open>\<^verbatim>\<open>match.groups()\<close>: the text of group \<open>n\<close>, the last capture made for it.\<close>

definition group :: "captures \<Rightarrow> nat \<Rightarrow> string" where
  "group c n = (case map_of c n of None \<Rightarrow> [] | Some g \<Rightarrow> g)"

subsection \<open>Pattern syntax\<close>

definition Lit :: "char \<Rightarrow> regex" where
  "Lit x = Chars (\<lambda>c. c = x)"

fun Lits :: "string \<Rightarrow> regex" where
  "Lits [] = Eps"
| "Lits [x] = Lit x"
| "Lits (x # xs) = Seq (Lit x) (Lits xs)"

definition Plus :: "regex \<Rightarrow> regex" where
  "Plus r = Seq r (Star r)"

definition Opt :: "regex \<Rightarrow> regex" where
  "Opt r = Alt r Eps"

fun Seqs :: "regex list \<Rightarrow> regex" where
  "Seqs [] = Eps"
| "Seqs [r] = r"
| "Seqs (r # rs) = Seq r (Seqs rs)"

fun Alts :: "regex list \<Rightarrow> regex" where
  "Alts [] = Eps"
| "Alts [r] = r"
| "Alts (r # rs) = Alt r (Alts rs)"

text \<open>\<^verbatim>\<open>d.join([r] * n)\<close> on patterns.\<close>

fun join_regex :: "regex \<Rightarrow> regex list \<Rightarrow> regex" where
  "join_regex d [] = Eps"
| "join_regex d [r] = r"
| "join_regex d (r # rs) = Seq r (Seq d (join_regex d rs))"

text \<open>
  \<^verbatim>\<open>\d\<close> and \<^verbatim>\<open>\s\<close> without the \<^verbatim>\<open>UNICODE\<close> flag (Python 2): \<^verbatim>\<open>[0-9]\<close> and
  \<^verbatim>\<open>[ \t\n\r\f\v]\<close>. With \<^verbatim>\<open>DOTALL\<close> the dot matches every character.
\<close>

definition rx_digit :: regex where "rx_digit = Chars isdigit"
definition rx_space :: regex where "rx_space = Chars isspace"
definition rx_any :: regex where "rx_any = Chars (\<lambda>c. True)"

section \<open>The block pattern\<close>

definition RGX_TIMESTAMP_MAGNITUDE_DELIM :: regex where
  "RGX_TIMESTAMP_MAGNITUDE_DELIM = Chars (\<lambda>c. c \<in> set '',.:'')"

definition RGX_TIMESTAMP :: regex where
  "RGX_TIMESTAMP = join_regex RGX_TIMESTAMP_MAGNITUDE_DELIM (replicate 4 (Plus rx_digit))"

definition RGX_INDEX :: regex where
  "RGX_INDEX = Plus rx_digit"

definition RGX_PROPRIETARY :: regex where
  "RGX_PROPRIETARY = Star (Chars (\<lambda>c. c \<notin> set [CHR 0x0D, CHR 0x0A]))"

definition RGX_CONTENT :: regex where
  "RGX_CONTENT = LazyStar rx_any"

definition RGX_POSSIBLE_CRLF :: regex where
  "RGX_POSSIBLE_CRLF = Seq (Opt (Lit CHR 0x0D)) (Lit CHR 0x0A)"

text \<open>
  \<^verbatim>\<open>({idx})\s*{eof}({ts}) --> ({ts}) ?({proprietary}){eof}({content})\<close>
  \<^verbatim>\<open>(?:{eof}|\Z)(?:{eof}|\Z|(?=(?:{idx}\s*{eof}{ts})))\<close>
  \<^verbatim>\<open>(?=(?:{idx}\s*{eof}{ts}|\Z))\<close>
\<close>

definition SRT_HEADER_AHEAD :: regex where
  "SRT_HEADER_AHEAD = Seqs [RGX_INDEX, Star rx_space, RGX_POSSIBLE_CRLF, RGX_TIMESTAMP]"

definition SRT_REGEX :: regex where
  "SRT_REGEX =
     Seqs [Group 1 RGX_INDEX, Star rx_space, RGX_POSSIBLE_CRLF,
           Group 2 RGX_TIMESTAMP, Lits '' --> '', Group 3 RGX_TIMESTAMP,
           Opt (Lit CHR '' ''), Group 4 RGX_PROPRIETARY, RGX_POSSIBLE_CRLF,
           Group 5 RGX_CONTENT,
           Alt RGX_POSSIBLE_CRLF EndZ,
           Alts [RGX_POSSIBLE_CRLF, EndZ, Look SRT_HEADER_AHEAD],
           Look (Alt SRT_HEADER_AHEAD EndZ)]"

section \<open>The block parser\<close>

text \<open>
  A generator is modelled by what it yields before it ends and by the exception that ends
  it, if one does.
\<close>

type_synonym 'a generator = "'a list \<times> py_error option"

text \<open>\<^verbatim>\<open>list(g)\<close> raises what the generator raises.\<close>

definition list_of :: "'a generator \<Rightarrow> py_error + 'a list" where
  "list_of g = (case snd g of None \<Rightarrow> Inr (fst g) | Some e \<Rightarrow> Inl e)"

definition yield :: "'a \<Rightarrow> 'a generator \<Rightarrow> 'a generator" where
  "yield x g = (x # fst g, snd g)"

text \<open>\<^verbatim>\<open>content.replace('\r\n', '\n')\<close>.\<close>

fun replace_crlf :: "string \<Rightarrow> string" where
  "replace_crlf (a # b # s) =
     (if a = CHR 0x0D \<and> b = CHR 0x0A then CHR 0x0A # replace_crlf s
      else a # replace_crlf (b # s))"
| "replace_crlf s = s"

definition raise_if_not_contiguous :: "string \<Rightarrow> nat \<Rightarrow> nat \<Rightarrow> py_error + unit" where
  "raise_if_not_contiguous srt expected_start actual_start =
     (if expected_start \<noteq> actual_start then
        Inl (SRTParseError expected_start actual_start
              (py_slice srt (Some (int expected_start)) (Some (int actual_start))))
      else Inr ())"

text \<open>
  The \<^verbatim>\<open>Subtitle(...)\<close> call of \<^verbatim>\<open>parse\<close>: the keyword arguments are evaluated in the
  order written, \<^verbatim>\<open>int(raw_index)\<close> first, then the two timestamp conversions.
\<close>

definition subtitle_of_match :: "captures \<Rightarrow> py_error + Subtitle" where
  "subtitle_of_match c =
     (let raw_index = group c 1; raw_start_ts = group c 2; raw_end_ts = group c 3;
          prop = group c 4; content = group c 5
      in bind_err (py_int raw_index) (\<lambda>idx.
         bind_err (srt_timestamp_to_timedelta raw_start_ts) (\<lambda>start_td.
         bind_err (srt_timestamp_to_timedelta raw_end_ts) (\<lambda>end_td.
         Inr (Subtitle_init idx (replace_crlf content) raw_start_ts start_td raw_end_ts end_td
               (Some prop))))))"

text \<open>The loop of \<^verbatim>\<open>parse\<close> over the matches, and the check after the loop.\<close>

fun parse_matches ::
  "string \<Rightarrow> nat \<Rightarrow> (nat \<times> nat \<times> captures) list \<Rightarrow> Subtitle generator" where
  "parse_matches srt expected_start [] =
     (case raise_if_not_contiguous srt expected_start (length srt) of
        Inl e \<Rightarrow> ([], Some e)
      | Inr _ \<Rightarrow> ([], None))"
| "parse_matches srt expected_start ((actual_start, match_end, c) # ms) =
     (case raise_if_not_contiguous srt expected_start actual_start of
        Inl e \<Rightarrow> ([], Some e)
      | Inr _ \<Rightarrow>
          (case subtitle_of_match c of
             Inl e \<Rightarrow> ([], Some e)
           | Inr sub \<Rightarrow> yield sub (parse_matches srt match_end ms)))"

definition parse :: "string \<Rightarrow> Subtitle generator" where
  "parse srt = parse_matches srt 0 (finditer SRT_REGEX srt)"

text \<open>
  The first place where the matches fail to tile the input, scanning from the offset
  \<open>expected\<close>: a match that does not start where the one before it ended, or the end of
  the last match when it is not the end of the input.
\<close>

fun first_gap :: "nat \<Rightarrow> (nat \<times> nat \<times> captures) list \<Rightarrow> nat \<Rightarrow> (nat \<times> nat) option" where
  "first_gap expected [] n = (if expected \<noteq> n then Some (expected, n) else None)"
| "first_gap expected ((a, b, c) # ms) n =
     (if expected \<noteq> a then Some (expected, a) else first_gap b ms n)"



section \<open>Sanitizer and composer\<close>

text \<open>\<^verbatim>\<open>s.strip()\<close>: white space removed at both ends.\<close>

definition strip :: "string \<Rightarrow> string" where
  "strip s = rev (dropWhile isspace (rev (dropWhile isspace s)))"

text \<open>
  A string method called on a value: a value that is not a text has no such method, and
  Python raises \<^verbatim>\<open>AttributeError\<close> with the method's name.
\<close>

definition as_text :: "string \<Rightarrow> pyval \<Rightarrow> py_error + string" where
  "as_text method v = (case v of PStr s \<Rightarrow> Inr s | _ \<Rightarrow> Inl (AttributeError method))"

text \<open>
  \<^verbatim>\<open>a < b\<close> in Python 2 on the values of the model. A \<^verbatim>\<open>timedelta\<close> compared for order
  with a value of another type raises \<^verbatim>\<open>TypeError\<close>; otherwise values of different
  types are ordered \<^verbatim>\<open>None\<close> first, then numbers, then texts.
\<close>

fun py_lt :: "pyval \<Rightarrow> pyval \<Rightarrow> py_error + bool" where
  "py_lt (PTimedelta a) (PTimedelta b) = Inr (a < b)"
| "py_lt (PTimedelta a) v = Inl TypeError"
| "py_lt v (PTimedelta b) = Inl TypeError"
| "py_lt (PStr a) (PStr b) = Inr (a < b)"
| "py_lt (PInt a) (PInt b) = Inr (a < b)"
| "py_lt PNone PNone = Inr False"
| "py_lt PNone v = Inr True"
| "py_lt v PNone = Inr False"
| "py_lt (PInt a) (PStr b) = Inr True"
| "py_lt (PStr a) (PInt b) = Inr False"

definition py_ge :: "pyval \<Rightarrow> pyval \<Rightarrow> py_error + bool" where
  "py_ge a b = bind_err (py_lt a b) (\<lambda>r. Inr (\<not> r))"

text \<open>
  \<^verbatim>\<open>SUBTITLE_SKIP_CONDITIONS\<close>: each message with its test,
  \<^verbatim>\<open>not sub.content.strip()\<close>, \<^verbatim>\<open>sub.start_ts_ < ZERO_TIMEDELTA\<close> and
  \<^verbatim>\<open>sub.start_ts_ >= sub.end_ts_\<close>.
\<close>

definition SUBTITLE_SKIP_CONDITIONS :: "(string \<times> (Subtitle \<Rightarrow> py_error + bool)) list" where
  "SUBTITLE_SKIP_CONDITIONS =
     [(''No content'',
        \<lambda>sub. bind_err (getattr sub ''content'') (\<lambda>v.
              bind_err (as_text ''strip'' v) (\<lambda>c. Inr (strip c = [])))),
      (''Start time < 0 seconds'',
        \<lambda>sub. bind_err (getattr sub ''start_ts_'') (\<lambda>a. py_lt a (PTimedelta ZERO_TIMEDELTA))),
      (''Subtitle start time >= end time'',
        \<lambda>sub. bind_err (getattr sub ''start_ts_'') (\<lambda>a.
              bind_err (getattr sub ''end_ts_'') (\<lambda>b. py_ge a b)))]"

text \<open>
  \<^verbatim>\<open>_should_skip_sub\<close>: the first condition that holds raises \<^verbatim>\<open>_ShouldSkipException\<close>
  with its message; an exception raised by a test goes through.
\<close>

fun skip_conditions ::
  "(string \<times> (Subtitle \<Rightarrow> py_error + bool)) list \<Rightarrow> Subtitle \<Rightarrow> py_error + unit" where
  "skip_conditions [] subtitle = Inr ()"
| "skip_conditions ((warning_msg, sub_skipper) # conds) subtitle =
     (case sub_skipper subtitle of
        Inl e \<Rightarrow> Inl e
      | Inr skip \<Rightarrow>
          if skip then Inl (ShouldSkipException warning_msg) else skip_conditions conds subtitle)"

definition should_skip_sub :: "Subtitle \<Rightarrow> py_error + unit" where
  "should_skip_sub subtitle = skip_conditions SUBTITLE_SKIP_CONDITIONS subtitle"

text \<open>
  \<^verbatim>\<open>sorted(subtitles)\<close> is stable and compares with \<^verbatim>\<open>__lt__\<close> only, which orders the
  subtitles by the pair of their timestamp texts.
\<close>

definition sorted_subtitles :: "Subtitle list \<Rightarrow> Subtitle list" where
  "sorted_subtitles subtitles = sort_key (\<lambda>s. (start_ts s, end_ts s)) subtitles"

text \<open>
  The loop of \<^verbatim>\<open>sort_and_reindex\<close>, with the counter of \<^verbatim>\<open>enumerate\<close> and
  \<^verbatim>\<open>skipped_subs\<close>. Only \<^verbatim>\<open>_ShouldSkipException\<close> is caught. The warning logged for a
  skipped subtitle is left out.
\<close>

fun sort_and_reindex_loop :: "bool \<Rightarrow> int \<Rightarrow> int \<Rightarrow> Subtitle list \<Rightarrow> Subtitle generator" where
  "sort_and_reindex_loop in_place sub_num skipped_subs [] = ([], None)"
| "sort_and_reindex_loop in_place sub_num skipped_subs (s # rest) =
     (case (if \<not> in_place then Subtitle_from_vars s else Inr s) of
        Inl e \<Rightarrow> ([], Some e)
      | Inr subtitle \<Rightarrow>
          (case should_skip_sub subtitle of
             Inl (ShouldSkipException thrown_exc) \<Rightarrow>
               sort_and_reindex_loop in_place (sub_num + 1) (skipped_subs + 1) rest
           | Inl e \<Rightarrow> ([], Some e)
           | Inr u \<Rightarrow>
               yield (subtitle\<lparr>index := sub_num - skipped_subs\<rparr>)
                 (sort_and_reindex_loop in_place (sub_num + 1) skipped_subs rest)))"

definition sort_and_reindex :: "Subtitle list \<Rightarrow> int \<Rightarrow> bool \<Rightarrow> Subtitle generator" where
  "sort_and_reindex subtitles start_index in_place =
     sort_and_reindex_loop in_place start_index 0 (sorted_subtitles subtitles)"

text \<open>\<^verbatim>\<open>s.replace('\n', eol)\<close>.\<close>

fun replace_newline :: "string \<Rightarrow> string \<Rightarrow> string" where
  "replace_newline [] eol = []"
| "replace_newline (c # s) eol =
     (if c = CHR 0x0A then eol @ replace_newline s eol else c # replace_newline s eol)"

text \<open>
  \<^verbatim>\<open>str(timedelta)\<close>: \<^verbatim>\<open>[D day[s], ]H:MM:SS[.ffffff]\<close>; and \<^verbatim>\<open>str\<close> of the other values,
  as \<^verbatim>\<open>format\<close> renders them.
\<close>

definition str_timedelta :: "timedelta \<Rightarrow> string" where
  "str_timedelta td =
     (let mm = seconds td div 60; ss = seconds td mod 60; hh = mm div 60; mm = mm mod 60;
          s = fmt_d 0 hh @ '':'' @ fmt_d 2 mm @ '':'' @ fmt_d 2 ss;
          s = (if days td \<noteq> 0
               then fmt_d 0 (days td) @ '' day'' @ (if \<bar>days td\<bar> \<noteq> 1 then ''s'' else '''') @ '', '' @ s
               else s)
      in if microseconds td \<noteq> 0 then s @ ''.'' @ fmt_d 6 (microseconds td) else s)"

fun py_str :: "pyval \<Rightarrow> string" where
  "py_str PNone = ''None''"
| "py_str (PInt i) = fmt_d 0 i"
| "py_str (PStr s) = s"
| "py_str (PTimedelta td) = str_timedelta td"

text \<open>
  \<^verbatim>\<open>timedelta_to_srt_timestamp\<close> applied to an attribute value: it reads \<^verbatim>\<open>.seconds\<close>
  first, which only a \<^verbatim>\<open>timedelta\<close> has.
\<close>

definition timedelta_to_srt_timestamp_of :: "pyval \<Rightarrow> py_error + string" where
  "timedelta_to_srt_timestamp_of v =
     (case v of PTimedelta td \<Rightarrow> Inr (timedelta_to_srt_timestamp td)
      | _ \<Rightarrow> Inl (AttributeError ''seconds''))"

text \<open>
  \<^verbatim>\<open>Subtitle.to_srt\<close>. It reads \<^verbatim>\<open>self.content\<close> and \<^verbatim>\<open>self.proprietary\<close>, puts a
  space before a proprietary value that is true (which raises \<^verbatim>\<open>TypeError\<close> unless the
  value is a text), legalises the content when \<^verbatim>\<open>strict\<close>, replaces the newlines when \<^verbatim>\<open>eol\<close> is given, and fills
  \<^verbatim>\<open>'{idx}{eol}{start} --> {end}{prop}{eol}{contents}{eol}{eol}'\<close>, where \<^verbatim>\<open>start\<close> and
  \<^verbatim>\<open>end\<close> are \<^verbatim>\<open>timedelta_to_srt_timestamp\<close> of \<^verbatim>\<open>self.start_ts_\<close> and \<^verbatim>\<open>self.end_ts_\<close>.
\<close>

definition to_srt :: "Subtitle \<Rightarrow> bool \<Rightarrow> string option \<Rightarrow> py_error + string" where
  "to_srt self strict eol =
     bind_err (getattr self ''content'') (\<lambda>output_content.
     bind_err (getattr self ''proprietary'') (\<lambda>output_proprietary.
     bind_err (case output_proprietary of
                 PStr p \<Rightarrow> Inr (if p \<noteq> [] then PStr ('' '' @ p) else PStr p)
               | PNone \<Rightarrow> Inr PNone
               | PInt i \<Rightarrow> if i \<noteq> 0 then Inl TypeError else Inr (PInt i)
               | PTimedelta td \<Rightarrow> if td \<noteq> 0 then Inl TypeError else Inr (PTimedelta td))
       (\<lambda>output_proprietary.
     bind_err (if strict
               then bind_err (as_text ''split'' output_content) (\<lambda>c. Inr (PStr (make_legal_content c)))
               else Inr output_content) (\<lambda>output_content.
     bind_err (case eol of
                 Some e \<Rightarrow> bind_err (as_text ''replace'' output_content) (\<lambda>c.
                             Inr (PStr (replace_newline c e)))
               | None \<Rightarrow> Inr output_content) (\<lambda>output_content.
     let eol = (case eol of Some e \<Rightarrow> e | None \<Rightarrow> ''\<newline>'') in
     bind_err (getattr self ''index_'') (\<lambda>idx.
     bind_err (bind_err (getattr self ''start_ts_'') timedelta_to_srt_timestamp_of) (\<lambda>start.
     bind_err (bind_err (getattr self ''end_ts_'') timedelta_to_srt_timestamp_of) (\<lambda>end.
     Inr (py_str idx @ eol @ start @ '' --> '' @ end @ py_str output_proprietary @ eol
          @ py_str output_content @ eol @ eol)))))))))"

text \<open>The blocks of the subtitles in order, up to the first that raises.\<close>

fun to_srt_all :: "bool \<Rightarrow> string option \<Rightarrow> Subtitle list \<Rightarrow> py_error + string list" where
  "to_srt_all strict eol [] = Inr []"
| "to_srt_all strict eol (subtitle # subtitles) =
     bind_err (to_srt subtitle strict eol) (\<lambda>block.
     bind_err (to_srt_all strict eol subtitles) (\<lambda>blocks. Inr (block # blocks)))"

text \<open>
  \<^verbatim>\<open>compose\<close>. \<^verbatim>\<open>''.join\<close> takes the subtitles from the generator one by one, so that a
  block that raises does so before the generator goes on; what ends the generator is
  raised after the blocks of all that it yielded.
\<close>

definition compose ::
  "Subtitle list \<Rightarrow> bool \<Rightarrow> int \<Rightarrow> bool \<Rightarrow> string option \<Rightarrow> py_error + string" where
  "compose subtitles reindex start_index strict eol =
     (let g = (if reindex then sort_and_reindex subtitles start_index False
               else (subtitles, None))
      in bind_err (to_srt_all strict eol (fst g)) (\<lambda>blocks.
         case snd g of Some e \<Rightarrow> Inl e | None \<Rightarrow> Inr (concat blocks)))"

section \<open>Floating-point seconds\<close>

text \<open>
  A Python \<^verbatim>\<open>float\<close> is an IEEE 754 double; it is modelled by the rational number that it
  is. \<open>round_double\<close> rounds a rational to the nearest double, ties to the even
  significand of 53 bits, as division and addition of doubles do. Doubles beyond the
  largest finite one and subnormal ones do not arise here: the quotients rounded below
  are zero or lie between \<open>10\<^sup>-\<^sup>6\<close> and \<open>10\<^sup>1\<^sup>4\<close> in magnitude.
\<close>

type_synonym float = rat

function ilog2 :: "int \<Rightarrow> int" where
  "ilog2 n = (if n < 2 then 0 else 1 + ilog2 (n div 2))"
  by pat_completeness auto
termination
  by (relation "measure nat") auto

declare ilog2.simps [simp del]

definition pow2 :: "int \<Rightarrow> rat" where
  "pow2 e = (if 0 \<le> e then 2 ^ nat e else 1 / 2 ^ nat (- e))"

text \<open>The exponent \<open>t\<close> with \<open>2\<^sup>t \<le> x < 2\<^sup>t\<^sup>+\<^sup>1\<close>, for a positive \<open>x\<close>.\<close>

definition floor_log2 :: "rat \<Rightarrow> int" where
  "floor_log2 x =
     (let (a, b) = quotient_of x;
          t = ilog2 a - ilog2 b
      in if pow2 t \<le> x then t else t - 1)"

definition round_half_even :: "rat \<Rightarrow> int" where
  "round_half_even x =
     (let f = \<lfloor>x\<rfloor>; d = x - of_int f
      in if d < 1 / 2 then f else if 1 / 2 < d then f + 1 else if even f then f else f + 1)"

definition round_double :: "rat \<Rightarrow> float" where
  "round_double q =
     (if q = 0 then 0
      else let x = \<bar>q\<bar>; e = floor_log2 x - 52; m = round_half_even (x / pow2 e)
           in sgn q * of_int m * pow2 e)"

text \<open>
  \<^verbatim>\<open>timedelta.total_seconds()\<close>: the microseconds divided by \<open>10\<^sup>6\<close> in true division,
  correctly rounded.
\<close>

definition total_seconds :: "timedelta \<Rightarrow> float" where
  "total_seconds td = round_double (of_int td / 1000000)"

section \<open>Alignment of two tracks\<close>

text \<open>
  \<^verbatim>\<open>deltatime_2_timestamp\<close>:
  \<^verbatim>\<open>_deltatime.total_seconds() + (_deltatime.microseconds / 1000000)\<close>. In Python 2 the
  division of the two integers is floor division; its result is converted to a double
  and added.
\<close>

definition deltatime_2_timestamp :: "timedelta \<Rightarrow> float" where
  "deltatime_2_timestamp deltatime =
     round_double (total_seconds deltatime + of_int (microseconds deltatime div 1000000))"

text \<open>
  The dictionary appended for a pair that overlaps. \<^verbatim>\<open>str(unicode(contents_))\<close> leaves
  the text as it is.
\<close>

record matched_row =
  f_start :: float
  f_end :: float
  s_start :: float
  s_end :: float
  left_ts :: float
  right_ts :: float
  f_contents :: string
  s_contents :: string

text \<open>The inner loop of \<^verbatim>\<open>doWork\<close>: one subtitle of the first track against the second track.\<close>

fun matched_row_list :: "Subtitle \<Rightarrow> Subtitle list \<Rightarrow> matched_row list" where
  "matched_row_list f_val [] = []"
| "matched_row_list f_val (s_val # rest) =
     (let f_start_td = deltatime_2_timestamp (start_timedelta f_val);
          f_end_td = deltatime_2_timestamp (end_timedelta f_val);
          s_start_td = deltatime_2_timestamp (start_timedelta s_val);
          s_end_td = deltatime_2_timestamp (end_timedelta s_val);
          l_ts = (if f_start_td \<ge> s_start_td then f_start_td else s_start_td);
          r_ts = (if f_end_td \<le> s_end_td then f_end_td else s_end_td)
      in if l_ts < r_ts
         then \<lparr>f_start = f_start_td, f_end = f_end_td, s_start = s_start_td, s_end = s_end_td,
               left_ts = l_ts, right_ts = r_ts,
               f_contents = contents f_val, s_contents = contents s_val\<rparr>
              # matched_row_list f_val rest
         else matched_row_list f_val rest)"

text \<open>
  The outer loop: the rows of each subtitle of the first track are appended to
  \<^verbatim>\<open>all_matched_list\<close> in their order.
\<close>

fun all_matched_list :: "Subtitle list \<Rightarrow> Subtitle list \<Rightarrow> matched_row list" where
  "all_matched_list [] second = []"
| "all_matched_list (f_val # rest) second =
     (let rows = matched_row_list f_val second
      in (if length rows > 0 then rows else []) @ all_matched_list rest second)"

subsection \<open>The alignment as the specification words it\<close>

text \<open>
  An Aligned Record: start, end, text of the first track, text of the second track. The
  specification takes every pair of the cross product, first-track order and second-track
  order within, keeps the pairs with \<open>max (f.start, s.start) < min (f.end, s.end)\<close> and
  emits these two bounds with the two texts. The bounds are given in the representation
  of the code, as seconds.
\<close>

type_synonym aligned_record = "float \<times> float \<times> string \<times> string"

definition spec_aligned_records :: "Subtitle list \<Rightarrow> Subtitle list \<Rightarrow> aligned_record list" where
  "spec_aligned_records first second =
     map (\<lambda>(f, s). (deltatime_2_timestamp (max (start_timedelta f) (start_timedelta s)),
                    deltatime_2_timestamp (min (end_timedelta f) (end_timedelta s)),
                    contents f, contents s))
       (filter (\<lambda>(f, s). max (start_timedelta f) (start_timedelta s)
                           < min (end_timedelta f) (end_timedelta s))
          (List.product first second))"

definition aligned_record_of :: "matched_row \<Rightarrow> aligned_record" where
  "aligned_record_of row = (left_ts row, right_ts row, f_contents row, s_contents row)"

text \<open>The start and end times of the subtitles of both tracks.\<close>

definition track_times :: "Subtitle list \<Rightarrow> Subtitle list \<Rightarrow> timedelta list" where
  "track_times first second =
     concat (map (\<lambda>s. [start_timedelta s, end_timedelta s]) (first @ second))"

section \<open>Writing the aligned records\<close>

text \<open>
  \<^verbatim>\<open>'%s' % x\<close> for a float is \<^verbatim>\<open>str(x)\<close>, which in Python 2 is the format \<^verbatim>\<open>%.12g\<close>
  with \<^verbatim>\<open>.0\<close> appended to a result without exponent and without decimal point: the
  value correctly rounded to twelve significant digits (ties to even), trailing zeros
  removed, in exponent notation when the decimal exponent is below \<open>-4\<close> or at least 12.
\<close>

function ilog10 :: "int \<Rightarrow> int" where
  "ilog10 n = (if n < 10 then 0 else 1 + ilog10 (n div 10))"
  by pat_completeness auto
termination
  by (relation "measure nat") auto

declare ilog10.simps [simp del]

definition pow10 :: "int \<Rightarrow> rat" where
  "pow10 e = (if 0 \<le> e then 10 ^ nat e else 1 / 10 ^ nat (- e))"

text \<open>The exponent \<open>t\<close> with \<open>10\<^sup>t \<le> x < 10\<^sup>t\<^sup>+\<^sup>1\<close>, for a positive \<open>x\<close>.\<close>

definition floor_log10 :: "rat \<Rightarrow> int" where
  "floor_log10 x =
     (let (a, b) = quotient_of x;
          t = ilog10 a - ilog10 b
      in if pow10 t \<le> x then t else t - 1)"

text \<open>The decimal digits of a non-negative integer.\<close>

function decimal_digits :: "int \<Rightarrow> string" where
  "decimal_digits n =
     (if n < 10 then [digit_char (nat n)]
      else decimal_digits (n div 10) @ [digit_char (nat (n mod 10))])"
  by pat_completeness auto
termination
  by (relation "measure nat") auto

declare decimal_digits.simps [simp del]

definition strip_zeros :: "string \<Rightarrow> string" where
  "strip_zeros ds = rev (dropWhile (\<lambda>c. c = CHR ''0'') (rev ds))"

text \<open>\<^verbatim>\<open>%.12g\<close> with the appended \<^verbatim>\<open>.0\<close>, for a positive value.\<close>

definition format_g12 :: "rat \<Rightarrow> string" where
  "format_g12 x =
     (let X0 = floor_log10 x;
          m0 = round_half_even (x / pow10 (X0 - 11));
          X = (if m0 = 1000000000000 then X0 + 1 else X0);
          m = (if m0 = 1000000000000 then 100000000000 else m0);
          ds = strip_zeros (decimal_digits m)
      in if X < - 4 \<or> 12 \<le> X
         then take 1 ds @ (if drop 1 ds = [] then [] else ''.'' @ drop 1 ds)
              @ ''e'' @ (if X < 0 then ''-'' else ''+'') @ zfill 2 (decimal_digits \<bar>X\<bar>)
         else if 0 \<le> X
         then (let k = nat (X + 1)
               in take k ds @ replicate (k - length ds) CHR ''0''
                  @ ''.'' @ (if drop k ds = [] then ''0'' else drop k ds))
         else ''0.'' @ replicate (nat (- X - 1)) CHR ''0'' @ ds)"

definition str_float :: "float \<Rightarrow> string" where
  "str_float x =
     (if x = 0 then ''0.0''
      else if x < 0 then ''-'' @ format_g12 (- x)
      else format_g12 x)"

text \<open>
  \<^verbatim>\<open>writeSrt\<close>: what is written to the output file, the blocks
  \<^verbatim>\<open>'%d\n%s --> %s\n%s\n%s\n\n' % (ndx, srt['left_ts'], srt['right_ts'],
  srt['f_contents'], srt['s_contents'])\<close> with \<^verbatim>\<open>ndx\<close> counting from 1.
\<close>

fun writeSrt_blocks :: "int \<Rightarrow> matched_row list \<Rightarrow> string" where
  "writeSrt_blocks ndx [] = []"
| "writeSrt_blocks ndx (srt # srt_info) =
     (fmt_d 0 ndx @ ''\<newline>'' @ str_float (left_ts srt) @ '' --> '' @ str_float (right_ts srt)
      @ ''\<newline>'' @ f_contents srt @ ''\<newline>'' @ s_contents srt @ ''\<newline>\<newline>'')
     @ writeSrt_blocks (ndx + 1) srt_info"

definition writeSrt :: "matched_row list \<Rightarrow> string" where
  "writeSrt srt_info = writeSrt_blocks 1 srt_info"

text \<open>
  \<^verbatim>\<open>doWork\<close> on two files of extension \<^verbatim>\<open>.srt\<close>, given the texts read from them: each is
  parsed with \<^verbatim>\<open>list(srt_github.parse(raw_text_))\<close>, the tracks are aligned, and the rows
  are written. The result is the text of the output file. Logging is left out.
\<close>

definition doWork :: "string \<Rightarrow> string \<Rightarrow> py_error + string" where
  "doWork first_subtitle second_subtitle =
     bind_err (list_of (parse first_subtitle)) (\<lambda>first_subs.
     bind_err (list_of (parse second_subtitle)) (\<lambda>second_subs.
     Inr (writeSrt (all_matched_list first_subs second_subs))))"

section \<open>Properties of content legalisation\<close>

lemma split_not_Nil: "split sep s \<noteq> []"
  by (induction s) (auto split: list.splits)

lemma split_no_sep: "l \<in> set (split sep s) \<Longrightarrow> sep \<notin> set l"
proof (induction s arbitrary: l)
  case Nil
  then show ?case by simp
next
  case (Cons c cs)
  then show ?case
    by (cases "split sep cs") (auto simp: split_not_Nil split: if_splits)
qed

lemma split_single: "sep \<notin> set x \<Longrightarrow> split sep x = [x]"
  by (induction x) auto

lemma split_append_sep:
  "sep \<notin> set x \<Longrightarrow> split sep (x @ sep # rest) = x # split sep rest"
  by (induction x) auto

lemma split_join:
  "ls \<noteq> [] \<Longrightarrow> \<forall>l \<in> set ls. sep \<notin> set l \<Longrightarrow> split sep (join [sep] ls) = ls"
proof (induction ls)
  case Nil
  then show ?case by simp
next
  case (Cons x xs)
  show ?case
  proof (cases xs)
    case Nil
    with Cons.prems show ?thesis by (simp add: split_single)
  next
    case (Cons y ys)
    with Cons.IH Cons.prems show ?thesis by (simp add: split_append_sep)
  qed
qed

lemma join_Nil_iff: "\<forall>l \<in> set ls. l \<noteq> [] \<Longrightarrow> join sep ls = [] \<longleftrightarrow> ls = []"
  by (induction sep ls rule: join.induct) auto

lemma hd_join: "ls \<noteq> [] \<Longrightarrow> hd ls \<noteq> [] \<Longrightarrow> hd (join sep ls) = hd (hd ls)"
  by (induction sep ls rule: join.induct) auto

lemma join_last_not_Nil: "ls \<noteq> [] \<Longrightarrow> last ls \<noteq> [] \<Longrightarrow> join sep ls \<noteq> []"
  by (induction sep ls rule: join.induct) auto

lemma last_join:
  "ls \<noteq> [] \<Longrightarrow> last ls \<noteq> [] \<Longrightarrow> last (join sep ls) = last (last ls)"
proof (induction sep ls rule: join.induct)
  case (3 sep x y ys)
  have "join sep (y # ys) \<noteq> []"
    using "3.prems" by (intro join_last_not_Nil) auto
  with "3.IH" "3.prems" show ?case by simp
qed auto

lemma legal_lines_props:
  "\<forall>l \<in> set (legal_lines x). l \<noteq> [] \<and> CHR ''\<newline>'' \<notin> set l"
  by (auto simp: legal_lines_def dest: split_no_sep)

lemma make_legal_content_lines: "make_legal_content x = join ''\<newline>'' (legal_lines x)"
  by (simp add: make_legal_content_def legal_lines_def)

lemma legal_lines_legal:
  "legal_lines (make_legal_content x) = legal_lines x"
proof (cases "legal_lines x = []")
  case True
  then show ?thesis by (simp add: make_legal_content_lines) (simp add: legal_lines_def)
next
  case False
  have "split CHR ''\<newline>'' (join ''\<newline>'' (legal_lines x)) = legal_lines x"
    using False legal_lines_props by (intro split_join) auto
  moreover have "filter (\<lambda>line. line \<noteq> []) (legal_lines x) = legal_lines x"
    by (simp add: legal_lines_def)
  ultimately show ?thesis
    by (simp add: make_legal_content_lines) (simp add: legal_lines_def)
qed

lemma make_legal_content_idem:
  "make_legal_content (make_legal_content x) = make_legal_content x"
proof -
  have "make_legal_content (make_legal_content x) =
        join ''\<newline>'' (legal_lines (make_legal_content x))"
    by (rule make_legal_content_lines)
  also have "\<dots> = join ''\<newline>'' (legal_lines x)"
    by (simp only: legal_lines_legal)
  also have "\<dots> = make_legal_content x"
    by (rule make_legal_content_lines [symmetric])
  finally show ?thesis .
qed

lemma make_legal_content_split:
  assumes "make_legal_content x \<noteq> []"
  shows "split CHR ''\<newline>'' (make_legal_content x) = legal_lines x"
proof -
  have "legal_lines x \<noteq> []" using assms by (auto simp: make_legal_content_lines)
  then show ?thesis
    using legal_lines_props by (simp add: make_legal_content_lines split_join)
qed

lemma make_legal_content_ends:
  assumes "make_legal_content x \<noteq> []"
  shows "hd (make_legal_content x) \<noteq> CHR ''\<newline>'' \<and> last (make_legal_content x) \<noteq> CHR ''\<newline>''"
proof -
  have ne: "legal_lines x \<noteq> []" using assms by (auto simp: make_legal_content_lines)
  then have h: "hd (legal_lines x) \<in> set (legal_lines x)" and l: "last (legal_lines x) \<in> set (legal_lines x)"
    by simp_all
  from h legal_lines_props have h1: "hd (legal_lines x) \<noteq> []" and h2: "CHR ''\<newline>'' \<notin> set (hd (legal_lines x))"
    by blast+
  from l legal_lines_props have l1: "last (legal_lines x) \<noteq> []" and l2: "CHR ''\<newline>'' \<notin> set (last (legal_lines x))"
    by blast+
  have "hd (make_legal_content x) = hd (hd (legal_lines x))"
    by (simp add: make_legal_content_lines hd_join ne h1)
  moreover have "last (make_legal_content x) = last (last (legal_lines x))"
    by (simp add: make_legal_content_lines last_join ne l1)
  moreover have "hd (hd (legal_lines x)) \<in> set (hd (legal_lines x))" using h1 by simp
  moreover have "last (last (legal_lines x)) \<in> set (last (legal_lines x))" using l1 by simp
  ultimately show ?thesis using h2 l2 by metis
qed

text \<open>
  Claim C9. For every text \<open>x\<close>, \<^verbatim>\<open>make_legal_content\<close> splits \<open>x\<close> at newlines, drops the
  empty lines and joins the rest with one newline (this is its definition). Applying it
  twice gives the same text as applying it once, and a non-empty result has no empty
  line and neither starts nor ends with a newline.
\<close>

theorem make_legal_content_legal_and_idempotent:
  "make_legal_content x =
     join ''\<newline>'' (filter (\<lambda>line. line \<noteq> []) (split CHR ''\<newline>'' x))
   \<and> make_legal_content (make_legal_content x) = make_legal_content x
   \<and> (make_legal_content x \<noteq> [] \<longrightarrow>
        [] \<notin> set (split CHR ''\<newline>'' (make_legal_content x))
        \<and> hd (make_legal_content x) \<noteq> CHR ''\<newline>''
        \<and> last (make_legal_content x) \<noteq> CHR ''\<newline>'')"
proof -
  have "[] \<notin> set (legal_lines x)"
    using legal_lines_props by blast
  then show ?thesis
    using make_legal_content_idem [of x] make_legal_content_split [of x]
      make_legal_content_ends [of x]
    by (simp add: make_legal_content_def)
qed

theorem make_legal_content_legal_and_idempotent_witness:
  "make_legal_content ''\<newline>foo\<newline>\<newline>bar\<newline>'' = ''foo\<newline>bar''
   \<and> make_legal_content ''\<newline>foo\<newline>\<newline>bar\<newline>'' \<noteq> []
   \<and> make_legal_content (make_legal_content ''\<newline>foo\<newline>\<newline>bar\<newline>'') = ''foo\<newline>bar''
   \<and> [] \<notin> set (split CHR ''\<newline>'' (make_legal_content ''\<newline>foo\<newline>\<newline>bar\<newline>''))
   \<and> hd (make_legal_content ''\<newline>foo\<newline>\<newline>bar\<newline>'') \<noteq> CHR ''\<newline>''
   \<and> last (make_legal_content ''\<newline>foo\<newline>\<newline>bar\<newline>'') \<noteq> CHR ''\<newline>''"
proof -
  have v: "make_legal_content ''\<newline>foo\<newline>\<newline>bar\<newline>'' = ''foo\<newline>bar''"
    by (simp add: make_legal_content_def)
  then have ne: "make_legal_content ''\<newline>foo\<newline>\<newline>bar\<newline>'' \<noteq> []"
    by simp
  show ?thesis
    using make_legal_content_legal_and_idempotent [of "''\<newline>foo\<newline>\<newline>bar\<newline>''"] ne v
    by simp
qed

section \<open>Decimal digits and slices\<close>

lemma of_char_digit_char: "d < 10 \<Longrightarrow> of_char (digit_char d) = 48 + d"
  by (simp add: digit_char_def)

lemma isdigit_iff: "isdigit c \<longleftrightarrow> 48 \<le> (of_char c :: nat) \<and> (of_char c :: nat) \<le> 57"
  by (simp add: isdigit_def less_eq_char_def)

lemma isdigit_digit_char: "d < 10 \<Longrightarrow> isdigit (digit_char d)"
  by (simp add: isdigit_iff of_char_digit_char)

lemma digit_val_digit_char: "d < 10 \<Longrightarrow> digit_val (digit_char d) = int d"
  by (simp add: digit_val_def of_char_digit_char)

lemma digits_of_not_Nil: "digits_of n \<noteq> []"
  by (subst digits_of.simps) simp

lemma digits_of_isdigit: "list_all isdigit (digits_of n)"
proof (induction n rule: digits_of.induct)
  case (1 n)
  show ?case
  proof (cases "n < 10")
    case True
    then show ?thesis by (subst digits_of.simps) (simp add: isdigit_digit_char)
  next
    case False
    with 1 show ?thesis by (subst digits_of.simps) (simp add: isdigit_digit_char)
  qed
qed

lemma digits_val_snoc: "digits_val acc (xs @ [c]) = digits_val acc xs * 10 + digit_val c"
  by (induction xs arbitrary: acc) auto

lemma digits_val_digits_of: "digits_val 0 (digits_of n) = int n"
proof (induction n rule: digits_of.induct)
  case (1 n)
  show ?case
  proof (cases "n < 10")
    case True
    then show ?thesis by (subst digits_of.simps) (simp add: digit_val_digit_char)
  next
    case False
    then have "digits_val 0 (digits_of (n div 10)) = int (n div 10)" by (rule 1)
    moreover have "int (n div 10) * 10 + int (n mod 10) = int n"
      by presburger
    ultimately show ?thesis
      using False by (subst digits_of.simps) (simp add: digits_val_snoc digit_val_digit_char)
  qed
qed

lemma digits_val_zeros: "digits_val 0 (replicate k CHR ''0'' @ ds) = digits_val 0 ds"
  by (induction k) (auto simp: digit_val_def)

lemma digits_val_zfill: "digits_val 0 (zfill w ds) = digits_val 0 ds"
  by (simp add: zfill_def digits_val_zeros)

lemma isdigit_zero: "isdigit CHR ''0''"
  by (simp add: isdigit_iff)

lemma zfill_isdigit: "list_all isdigit ds \<Longrightarrow> list_all isdigit (zfill w ds)"
  by (auto simp: zfill_def list_all_iff isdigit_zero)

lemma zfill_not_Nil: "ds \<noteq> [] \<Longrightarrow> zfill w ds \<noteq> []"
  by (simp add: zfill_def)

lemma isdigit_not_space: "isdigit c \<Longrightarrow> \<not> isspace c"
  by (auto simp: isdigit_iff isspace_def)

lemma isdigit_not_sign: "isdigit c \<Longrightarrow> c \<noteq> CHR ''+'' \<and> c \<noteq> CHR ''-''"
  by (auto simp: isdigit_iff)

lemma takeWhile_all: "list_all P xs \<Longrightarrow> takeWhile P xs = xs"
  by (induction xs) auto

lemma dropWhile_all: "list_all P xs \<Longrightarrow> dropWhile P xs = []"
  by (induction xs) auto

lemma py_int_digits:
  assumes "ds \<noteq> []" and "list_all isdigit ds"
  shows "py_int ds = Inr (digits_val 0 ds)"
proof -
  from assms obtain c cs where ds: "ds = c # cs" and c: "isdigit c"
    by (cases ds) auto
  have 1: "dropWhile isspace ds = ds"
    using c ds isdigit_not_space by simp
  show ?thesis
    unfolding py_int_def 1
    using assms c isdigit_not_sign [OF c] isdigit_not_space [OF c]
    by (simp add: ds takeWhile_all dropWhile_all Let_def)
qed

lemma py_int_minus_digits:
  assumes "ds \<noteq> []" and "list_all isdigit ds"
  shows "py_int (CHR ''-'' # ds) = Inr (- digits_val 0 ds)"
proof -
  from assms obtain c cs where ds: "ds = c # cs" and c: "isdigit c"
    by (cases ds) auto
  have 0: "\<not> isspace CHR ''-''" by (simp add: isspace_def)
  show ?thesis
    unfolding py_int_def
    using assms c isdigit_not_sign [OF c] isdigit_not_space [OF c] 0
    by (simp add: ds takeWhile_all dropWhile_all Let_def)
qed

lemma py_int_fmt_d: "py_int (fmt_d w i) = Inr i"
proof (cases "i < 0")
  case True
  let ?ds = "zfill (w - 1) (digits_of (nat (- i)))"
  have "py_int (CHR ''-'' # ?ds) = Inr (- digits_val 0 ?ds)"
    by (intro py_int_minus_digits zfill_not_Nil zfill_isdigit digits_of_not_Nil digits_of_isdigit)
  with True show ?thesis
    by (simp add: fmt_d_def digits_val_zfill digits_val_digits_of)
next
  case False
  let ?ds = "zfill w (digits_of (nat i))"
  have "py_int ?ds = Inr (digits_val 0 ?ds)"
    by (intro py_int_digits zfill_not_Nil zfill_isdigit digits_of_not_Nil digits_of_isdigit)
  with False show ?thesis
    by (simp add: fmt_d_def digits_val_zfill digits_val_digits_of)
qed

lemma length_digits_of_1: "n < 10 \<Longrightarrow> length (digits_of n) = 1"
  by (subst digits_of.simps) simp

lemma length_digits_of_2: "10 \<le> n \<Longrightarrow> n < 100 \<Longrightarrow> length (digits_of n) = 2"
  by (subst digits_of.simps) (simp add: length_digits_of_1)

lemma length_digits_of_3: "100 \<le> n \<Longrightarrow> n < 1000 \<Longrightarrow> length (digits_of n) = 3"
  by (subst digits_of.simps) (simp add: length_digits_of_2)

lemma length_digits_of_ge3: "100 \<le> n \<Longrightarrow> 3 \<le> length (digits_of n)"
proof (induction n rule: digits_of.induct)
  case (1 n)
  show ?case
  proof (cases "n < 1000")
    case True
    with 1(2) show ?thesis by (simp add: length_digits_of_3)
  next
    case False
    then have "3 \<le> length (digits_of (n div 10))" by (intro 1) auto
    with False show ?thesis by (subst digits_of.simps) simp
  qed
qed

lemma length_zfill: "length (zfill w s) = max w (length s)"
  by (simp add: zfill_def)

lemma length_fmt_d_2: "0 \<le> i \<Longrightarrow> i < 100 \<Longrightarrow> length (fmt_d 2 i) = 2"
proof -
  assume a: "0 \<le> i" "i < 100"
  then have "nat i < 10 \<or> (10 \<le> nat i \<and> nat i < 100)" by auto
  then have "length (digits_of (nat i)) \<le> 2"
    using length_digits_of_1 [of "nat i"] length_digits_of_2 [of "nat i"] by auto
  with a show ?thesis by (simp add: fmt_d_def length_zfill)
qed

lemma length_fmt_d_3: "0 \<le> i \<Longrightarrow> i < 1000 \<Longrightarrow> length (fmt_d 3 i) = 3"
proof -
  assume a: "0 \<le> i" "i < 1000"
  then have "nat i < 10 \<or> (10 \<le> nat i \<and> nat i < 100) \<or> (100 \<le> nat i \<and> nat i < 1000)" by auto
  then have "length (digits_of (nat i)) \<le> 3"
    using length_digits_of_1 [of "nat i"] length_digits_of_2 [of "nat i"]
      length_digits_of_3 [of "nat i"] by auto
  with a show ?thesis by (simp add: fmt_d_def length_zfill)
qed

lemma length_fmt_d_2_ge: "2 \<le> length (fmt_d 2 i)"
  using digits_of_not_Nil [of "nat (- i)"]
  by (cases "digits_of (nat (- i))") (auto simp: fmt_d_def length_zfill)

lemma fmt_d_isdigit: "0 \<le> i \<Longrightarrow> list_all isdigit (fmt_d w i)"
  by (simp add: fmt_d_def zfill_isdigit digits_of_isdigit)

lemma nat_add_int_diff: "0 \<le> k \<Longrightarrow> nat (k + int n) - n = nat k"
  by arith

lemma timestamp_slices:
  assumes "length M = 2" "length S = 2" "length K = 3"
  shows "py_slice (H @ c1 # M @ c2 # S @ c3 # K) None (Some (- 10)) = H"
    and "py_slice (H @ c1 # M @ c2 # S @ c3 # K) (Some (- 10)) (Some (- 9)) = [c1]"
    and "py_slice (H @ c1 # M @ c2 # S @ c3 # K) (Some (- 9)) (Some (- 7)) = M"
    and "py_slice (H @ c1 # M @ c2 # S @ c3 # K) (Some (- 7)) (Some (- 6)) = [c2]"
    and "py_slice (H @ c1 # M @ c2 # S @ c3 # K) (Some (- 6)) (Some (- 4)) = S"
    and "py_slice (H @ c1 # M @ c2 # S @ c3 # K) (Some (- 4)) (Some (- 3)) = [c3]"
    and "py_slice (H @ c1 # M @ c2 # S @ c3 # K) (Some (- 3)) None = K"
proof -
  from assms obtain m1 m2 where M: "M = [m1, m2]"
    by (cases M; cases "tl M") auto
  from assms obtain s1 s2 where S: "S = [s1, s2]"
    by (cases S; cases "tl S") auto
  from assms obtain k1 k2 k3 where K: "K = [k1, k2, k3]"
    by (cases K; cases "tl K"; cases "tl (tl K)") auto
  show "py_slice (H @ c1 # M @ c2 # S @ c3 # K) None (Some (- 10)) = H"
    and "py_slice (H @ c1 # M @ c2 # S @ c3 # K) (Some (- 10)) (Some (- 9)) = [c1]"
    and "py_slice (H @ c1 # M @ c2 # S @ c3 # K) (Some (- 9)) (Some (- 7)) = M"
    and "py_slice (H @ c1 # M @ c2 # S @ c3 # K) (Some (- 7)) (Some (- 6)) = [c2]"
    and "py_slice (H @ c1 # M @ c2 # S @ c3 # K) (Some (- 6)) (Some (- 4)) = S"
    and "py_slice (H @ c1 # M @ c2 # S @ c3 # K) (Some (- 4)) (Some (- 3)) = [c3]"
    and "py_slice (H @ c1 # M @ c2 # S @ c3 # K) (Some (- 3)) None = K"
    by (simp_all add: M S K py_slice_def slice_bound_def nat_add_int_diff)
qed

section \<open>The timestamp codec: formatting and parsing\<close>

lemma int_div_bounds:
  fixes a b c :: int
  assumes "0 < b" "0 \<le> a" "a < c * b"
  shows "0 \<le> a div b \<and> a div b < c"
proof -
  have "a div b * b \<le> a"
    using assms(1) by (metis mult.commute pos_mod_sign mult_div_mod_eq le_add_same_cancel1)
  then have "a div b * b < c * b" using assms(3) by linarith
  then have "a div b < c" using assms(1) by (simp add: mult_less_cancel_right)
  then show ?thesis using assms by (simp add: pos_imp_zdiv_nonneg_iff)
qed

lemma seconds_range: "0 \<le> seconds td \<and> seconds td < 86400"
  unfolding seconds_def by (rule int_div_bounds) simp_all

lemma microseconds_range: "0 \<le> microseconds td \<and> microseconds td < 1000000"
  by (simp add: microseconds_def)

lemma timedelta_to_srt_timestamp_fields:
  "timedelta_to_srt_timestamp td =
     fmt_d 2 (ts_hrs td) @ CHR '':'' # fmt_d 2 (ts_mins td) @ CHR '':'' # fmt_d 2 (ts_secs td)
       @ CHR '','' # fmt_d 3 (ts_msecs td)"
  by (simp add: timedelta_to_srt_timestamp_def ts_hrs_def ts_mins_def ts_secs_def ts_msecs_def
      SECONDS_IN_HOUR_def SECONDS_IN_MINUTE_def HOURS_IN_DAY_def MICROSECONDS_IN_MILLISECOND_def
      Let_def)

lemma ts_mins_range: "0 \<le> ts_mins td \<and> ts_mins td < 60"
  unfolding ts_mins_def by (rule int_div_bounds) simp_all

lemma ts_secs_range: "0 \<le> ts_secs td \<and> ts_secs td < 60"
  unfolding ts_secs_def by simp

lemma ts_msecs_range: "0 \<le> ts_msecs td \<and> ts_msecs td < 1000"
  unfolding ts_msecs_def microseconds_def by (rule int_div_bounds) simp_all

lemma ts_fields_length:
  "length (fmt_d 2 (ts_mins td)) = 2" "length (fmt_d 2 (ts_secs td)) = 2"
  "length (fmt_d 3 (ts_msecs td)) = 3"
  using ts_mins_range [of td] ts_secs_range [of td] ts_msecs_range [of td]
  by (simp_all add: length_fmt_d_2 length_fmt_d_3)

lemma length_timedelta_to_srt_timestamp:
  "length (timedelta_to_srt_timestamp td) = length (fmt_d 2 (ts_hrs td)) + 10"
  by (simp add: timedelta_to_srt_timestamp_fields ts_fields_length)

lemma ts_fields_sum:
  "ts_hrs td * 3600000000 + ts_mins td * 60000000 + ts_secs td * 1000000 + ts_msecs td * 1000
   = td - td mod 1000"
proof -
  define s where "s = seconds td"
  define a b c where "a = s div 3600" and "b = s mod 3600 div 60" and "c = s mod 3600 mod 60"
  define k where "k = microseconds td div 1000"
  have s: "a * 3600 + b * 60 + c = s"
    unfolding a_def b_def c_def by presburger
  have day: "days td * 86400000000 + s * 1000000 + microseconds td = td"
  proof -
    have "td mod 86400000000 mod 1000000 = td mod 1000000"
      by (rule mod_mod_cancel) simp
    then have "td mod 86400000000 = s * 1000000 + microseconds td"
      unfolding s_def seconds_def microseconds_def
      by (metis mult.commute mult_div_mod_eq)
    then show ?thesis
      unfolding days_def by (metis add.assoc div_mult_mod_eq)
  qed
  have ms: "k * 1000 = microseconds td - td mod 1000"
  proof -
    have "td mod 1000000 mod 1000 = td mod 1000"
      by (rule mod_mod_cancel) simp
    then show ?thesis
      unfolding k_def microseconds_def by (metis minus_mod_eq_div_mult)
  qed
  have "ts_hrs td = a + days td * 24" "ts_mins td = b" "ts_secs td = c" "ts_msecs td = k"
    by (simp_all add: ts_hrs_def ts_mins_def ts_secs_def ts_msecs_def a_def b_def c_def k_def s_def)
  moreover define D u r where "D = days td" and "u = microseconds td" and "r = td mod 1000"
  ultimately show ?thesis
    using s day ms by (simp only:) algebra
qed

lemma days_truncate: "days (td - td mod 1000) = days td"
proof -
  have "td - td mod 1000 = td div 1000 * 1000"
    by (simp add: minus_mod_eq_div_mult)
  then have "(td - td mod 1000) div 86400000000 = td div 1000 * 1000 div (1000 * 86400000)"
    by simp
  also have "\<dots> = td div 1000 * 1000 div 1000 div 86400000"
    by (rule zdiv_zmult2_eq) simp
  also have "\<dots> = td div 1000 div 86400000"
    by simp
  also have "\<dots> = td div (1000 * 86400000)"
    by (rule zdiv_zmult2_eq [symmetric]) simp
  finally show ?thesis by (simp add: days_def)
qed

lemma format_then_parse_truncates:
  "srt_timestamp_to_timedelta (timedelta_to_srt_timestamp td) =
     (if - 999999999 \<le> days td \<and> days td \<le> 999999999 then Inr (td - td mod 1000)
      else Inl OverflowError)"
proof -
  let ?H = "fmt_d 2 (ts_hrs td)" and ?M = "fmt_d 2 (ts_mins td)"
  let ?S = "fmt_d 2 (ts_secs td)" and ?K = "fmt_d 3 (ts_msecs td)"
  let ?ts = "?H @ CHR '':'' # ?M @ CHR '':'' # ?S @ CHR '','' # ?K"
  have len: "\<not> length ?ts < TS_LEN"
    using length_fmt_d_2_ge [of "ts_hrs td"] by (simp add: TS_LEN_def ts_fields_length)
  have sl: "py_slice ?ts None (Some (- 10)) = ?H" "py_slice ?ts (Some (- 9)) (Some (- 7)) = ?M"
    "py_slice ?ts (Some (- 6)) (Some (- 4)) = ?S" "py_slice ?ts (Some (- 3)) None = ?K"
    by (rule timestamp_slices; rule ts_fields_length)+
  have "srt_timestamp_to_timedelta ?ts
        = timedelta (ts_hrs td) (ts_mins td) (ts_secs td) (ts_msecs td)"
    unfolding srt_timestamp_to_timedelta_def sl
    using len by (simp add: py_int_fmt_d bind_err_def)
  also have "\<dots> = (if - 999999999 \<le> days td \<and> days td \<le> 999999999 then Inr (td - td mod 1000)
      else Inl OverflowError)"
    unfolding timedelta_def ts_fields_sum by (simp add: days_truncate Let_def)
  finally show ?thesis
    by (simp only: timedelta_to_srt_timestamp_fields)
qed

lemma srt_timestamp_to_timedelta_ms:
  assumes "srt_timestamp_to_timedelta ts = Inr d"
  shows "d mod 1000 = 0 \<and> - 999999999 \<le> days d \<and> days d \<le> 999999999"
proof -
  from assms obtain h m s k where "timedelta h m s k = Inr d"
    by (auto simp: srt_timestamp_to_timedelta_def bind_err_def split: if_splits sum.splits)
  then have d: "d = h * 3600000000 + m * 60000000 + s * 1000000 + k * 1000"
    and r: "- 999999999 \<le> days d \<and> days d \<le> 999999999"
    by (auto simp: timedelta_def Let_def split: if_splits)
  have "d = 1000 * (h * 3600000 + m * 60000 + s * 1000 + k)"
    unfolding d by simp
  then have "d mod 1000 = 0" by (simp only: mod_mult_self1_is_0)
  with r show ?thesis by simp
qed

lemma days_nonneg: "0 \<le> d \<Longrightarrow> 0 \<le> days d"
  by (simp add: days_def pos_imp_zdiv_nonneg_iff)

text \<open>
  Claim C3. A duration of millisecond resolution within the range of \<^verbatim>\<open>timedelta\<close> is
  returned unchanged by formatting and then parsing; in particular this holds for every
  non-negative such duration, and for every value that the parser returns.
\<close>

theorem srt_timestamp_roundtrip:
  "(0 \<le> d \<and> d mod 1000 = 0 \<and> days d \<le> 999999999 \<longrightarrow>
      srt_timestamp_to_timedelta (timedelta_to_srt_timestamp d) = Inr d)
   \<and> (srt_timestamp_to_timedelta ts = Inr d \<longrightarrow>
      srt_timestamp_to_timedelta (timedelta_to_srt_timestamp d) = Inr d)"
proof (intro conjI impI)
  assume "0 \<le> d \<and> d mod 1000 = 0 \<and> days d \<le> 999999999"
  then show "srt_timestamp_to_timedelta (timedelta_to_srt_timestamp d) = Inr d"
    using days_nonneg [of d] by (simp add: format_then_parse_truncates)
next
  assume "srt_timestamp_to_timedelta ts = Inr d"
  then show "srt_timestamp_to_timedelta (timedelta_to_srt_timestamp d) = Inr d"
    using srt_timestamp_to_timedelta_ms [of ts d] by (simp add: format_then_parse_truncates)
qed

theorem srt_timestamp_roundtrip_witness:
  "(0::int) \<le> 4984000000 \<and> (4984000000::int) mod 1000 = 0 \<and> days 4984000000 \<le> 999999999
   \<and> srt_timestamp_to_timedelta ''01:23:04,000'' = Inr 4984000000
   \<and> timedelta_to_srt_timestamp 4984000000 = ''01:23:04,000''
   \<and> srt_timestamp_to_timedelta (timedelta_to_srt_timestamp 4984000000) = Inr 4984000000"
proof -
  have h: "(0::int) \<le> 4984000000 \<and> (4984000000::int) mod 1000 = 0 \<and> days 4984000000 \<le> 999999999"
    by (simp add: days_def)
  have p: "srt_timestamp_to_timedelta ''01:23:04,000'' = Inr 4984000000"
    by code_simp
  have f: "timedelta_to_srt_timestamp 4984000000 = ''01:23:04,000''"
    by code_simp
  from srt_timestamp_roundtrip [of 4984000000 "''01:23:04,000''"] h p f show ?thesis
    by simp
qed

lemma ts_hrs_bounds:
  "ts_hrs d * 3600000000 \<le> d \<and> d < ts_hrs d * 3600000000 + 3600000000"
proof -
  define h m s k r where "h = ts_hrs d" and "m = ts_mins d" and "s = ts_secs d"
    and "k = ts_msecs d" and "r = d mod 1000"
  have "h * 3600000000 + m * 60000000 + s * 1000000 + k * 1000 = d - r"
    unfolding h_def m_def s_def k_def r_def by (rule ts_fields_sum)
  moreover have "0 \<le> m \<and> m < 60" "0 \<le> s \<and> s < 60" "0 \<le> k \<and> k < 1000" "0 \<le> r \<and> r < 1000"
    unfolding m_def s_def k_def r_def
    using ts_mins_range ts_secs_range ts_msecs_range by simp_all
  ultimately show ?thesis
    unfolding h_def [symmetric] by linarith
qed

lemma ts_hrs_nonneg: "0 \<le> d \<Longrightarrow> 0 \<le> ts_hrs d"
  using ts_hrs_bounds [of d] by linarith

lemma ts_hrs_small: "0 \<le> d \<Longrightarrow> ts_hrs d < 100 \<longleftrightarrow> d < 360000000000"
  using ts_hrs_bounds [of d] by linarith

lemma length_fmt_d_2_large:
  assumes "100 \<le> i"
  shows "3 \<le> length (fmt_d 2 i)"
proof -
  from assms have "100 \<le> nat i" by simp
  then have "3 \<le> length (digits_of (nat i))" by (rule length_digits_of_ge3)
  with assms show ?thesis by (simp add: fmt_d_def length_zfill)
qed

text \<open>
  The formatter renders every non-negative duration as \<^verbatim>\<open>H..H:MM:SS,mmm\<close>: decimal digits
  only, the hours padded with zeros to at least two digits, two digits each for minutes
  and seconds, three for the milliseconds, colons between hours, minutes and seconds and
  a comma before the milliseconds. The text has the twelve characters of
  \<^verbatim>\<open>HH:MM:SS,mmm\<close> exactly when the duration is below 100 hours.
\<close>

lemma timedelta_to_srt_timestamp_shape:
  assumes "0 \<le> d"
  shows "srt_timestamp_shape (timedelta_to_srt_timestamp d)
         \<and> (srt_timestamp_exact (timedelta_to_srt_timestamp d) \<longleftrightarrow> d < 360000000000)"
proof -
  let ?H = "fmt_d 2 (ts_hrs d)" and ?M = "fmt_d 2 (ts_mins d)"
  let ?S = "fmt_d 2 (ts_secs d)" and ?K = "fmt_d 3 (ts_msecs d)"
  let ?ts = "?H @ CHR '':'' # ?M @ CHR '':'' # ?S @ CHR '','' # ?K"
  have ts: "timedelta_to_srt_timestamp d = ?ts"
    by (rule timedelta_to_srt_timestamp_fields)
  have sl: "py_slice ?ts None (Some (- 10)) = ?H" "py_slice ?ts (Some (- 9)) (Some (- 7)) = ?M"
    "py_slice ?ts (Some (- 6)) (Some (- 4)) = ?S" "py_slice ?ts (Some (- 3)) None = ?K"
    "py_slice ?ts (Some (- 10)) (Some (- 9)) = '':''"
    "py_slice ?ts (Some (- 7)) (Some (- 6)) = '':''"
    "py_slice ?ts (Some (- 4)) (Some (- 3)) = '',''"
    by (rule timestamp_slices; rule ts_fields_length)+
  have dig: "list_all isdigit ?H" "list_all isdigit ?M" "list_all isdigit ?S" "list_all isdigit ?K"
    using ts_hrs_nonneg [OF assms] ts_mins_range [of d] ts_secs_range [of d] ts_msecs_range [of d]
    by (simp_all add: fmt_d_isdigit)
  have len: "length ?ts = length ?H + 10"
    by (simp add: ts_fields_length)
  have shape: "srt_timestamp_shape ?ts"
    unfolding srt_timestamp_shape_def sl
    using dig length_fmt_d_2_ge [of "ts_hrs d"] by (simp add: ts_fields_length)
  have "length ?H = 2 \<longleftrightarrow> d < 360000000000"
  proof (cases "ts_hrs d < 100")
    case True
    then have "length ?H = 2"
      using ts_hrs_nonneg [OF assms] by (simp add: length_fmt_d_2)
    with True ts_hrs_small [OF assms] show ?thesis by simp
  next
    case False
    then have "3 \<le> length ?H"
      by (intro length_fmt_d_2_large) simp
    with False ts_hrs_small [OF assms] show ?thesis by simp
  qed
  with shape len show ?thesis
    unfolding ts srt_timestamp_exact_def by simp
qed

text \<open>A duration of 100 hours is rendered with three hour digits.\<close>

lemma timedelta_to_srt_timestamp_hundred_hours:
  "timedelta_to_srt_timestamp 360000000000 = ''100:00:00,000''
   \<and> \<not> srt_timestamp_exact (timedelta_to_srt_timestamp 360000000000)"
proof -
  have f: "timedelta_to_srt_timestamp 360000000000 = ''100:00:00,000''"
    by code_simp
  then show ?thesis
    by (simp add: srt_timestamp_exact_def)
qed

lemma length_timestamp_slices:
  assumes "12 \<le> length ts"
  shows "length (py_slice ts None (Some (- 10))) = length ts - 10"
    and "length (py_slice ts (Some (- 9)) (Some (- 7))) = 2"
    and "length (py_slice ts (Some (- 6)) (Some (- 4))) = 2"
    and "length (py_slice ts (Some (- 3)) None) = 3"
  using assms by (simp_all add: py_slice_def slice_bound_def)

lemma if_Inl_Inr: "(if A then Inl a else Inr x) = Inl e \<Longrightarrow> e = a"
  by (cases A) simp_all

lemma if_Inr_Inl: "(if A then Inr x else Inl a) = Inl e \<Longrightarrow> e = a"
  by (cases A) simp_all

lemma py_int_error: "py_int s = Inl e \<Longrightarrow> e = ValueError"
  unfolding py_int_def Let_def by (erule if_Inl_Inr)

lemma timedelta_error: "timedelta h m s k = Inl e \<Longrightarrow> e = OverflowError"
  unfolding timedelta_def Let_def by (erule if_Inr_Inl)

text \<open>
  Claim C8, as the code has it. The parser raises \<^verbatim>\<open>ValueError\<close> exactly when the text is
  shorter than 12 characters or \<^verbatim>\<open>int\<close> rejects one of the four positional fields. When
  the text has at least 12 characters and the four fields are decimal digits, no field
  is checked against a calendar limit: the result is what the \<^verbatim>\<open>timedelta\<close> constructor
  makes of the four numbers, that is their sum in microseconds, or \<^verbatim>\<open>OverflowError\<close>
  beyond 999999999 days.
\<close>

theorem srt_timestamp_to_timedelta_failures:
  "(length ts < 12 \<longrightarrow> srt_timestamp_to_timedelta ts = Inl ValueError)
   \<and> (srt_timestamp_to_timedelta ts = Inl ValueError \<longleftrightarrow>
        length ts < 12
        \<or> py_int (py_slice ts None (Some (- 10))) = Inl ValueError
        \<or> py_int (py_slice ts (Some (- 9)) (Some (- 7))) = Inl ValueError
        \<or> py_int (py_slice ts (Some (- 6)) (Some (- 4))) = Inl ValueError
        \<or> py_int (py_slice ts (Some (- 3)) None) = Inl ValueError)
   \<and> (12 \<le> length ts
        \<and> list_all isdigit (py_slice ts None (Some (- 10)))
        \<and> list_all isdigit (py_slice ts (Some (- 9)) (Some (- 7)))
        \<and> list_all isdigit (py_slice ts (Some (- 6)) (Some (- 4)))
        \<and> list_all isdigit (py_slice ts (Some (- 3)) None) \<longrightarrow>
        srt_timestamp_to_timedelta ts =
          timedelta (digits_val 0 (py_slice ts None (Some (- 10))))
            (digits_val 0 (py_slice ts (Some (- 9)) (Some (- 7))))
            (digits_val 0 (py_slice ts (Some (- 6)) (Some (- 4))))
            (digits_val 0 (py_slice ts (Some (- 3)) None)))"
proof (intro conjI impI)
  assume "length ts < 12"
  then show "srt_timestamp_to_timedelta ts = Inl ValueError"
    by (simp add: srt_timestamp_to_timedelta_def TS_LEN_def)
next
  show "srt_timestamp_to_timedelta ts = Inl ValueError \<longleftrightarrow>
        length ts < 12
        \<or> py_int (py_slice ts None (Some (- 10))) = Inl ValueError
        \<or> py_int (py_slice ts (Some (- 9)) (Some (- 7))) = Inl ValueError
        \<or> py_int (py_slice ts (Some (- 6)) (Some (- 4))) = Inl ValueError
        \<or> py_int (py_slice ts (Some (- 3)) None) = Inl ValueError"
    by (auto simp: srt_timestamp_to_timedelta_def TS_LEN_def bind_err_def
        split: sum.splits dest: py_int_error timedelta_error)
next
  let ?H = "py_slice ts None (Some (- 10))" and ?M = "py_slice ts (Some (- 9)) (Some (- 7))"
  let ?S = "py_slice ts (Some (- 6)) (Some (- 4))" and ?K = "py_slice ts (Some (- 3)) None"
  assume a: "12 \<le> length ts \<and> list_all isdigit ?H \<and> list_all isdigit ?M
    \<and> list_all isdigit ?S \<and> list_all isdigit ?K"
  then have ne: "?H \<noteq> []" "?M \<noteq> []" "?S \<noteq> []" "?K \<noteq> []"
    using length_timestamp_slices [of ts] by auto
  have "py_int ?H = Inr (digits_val 0 ?H)" "py_int ?M = Inr (digits_val 0 ?M)"
    "py_int ?S = Inr (digits_val 0 ?S)" "py_int ?K = Inr (digits_val 0 ?K)"
    using a ne by (simp_all add: py_int_digits)
  then show "srt_timestamp_to_timedelta ts =
      timedelta (digits_val 0 ?H) (digits_val 0 ?M) (digits_val 0 ?S) (digits_val 0 ?K)"
    using a by (simp add: srt_timestamp_to_timedelta_def TS_LEN_def bind_err_def)
qed

theorem srt_timestamp_to_timedelta_failures_witness:
  "length ''1:2:3,4'' < 12 \<and> srt_timestamp_to_timedelta ''1:2:3,4'' = Inl ValueError
   \<and> 12 \<le> length ''00:99:00,000''
   \<and> list_all isdigit (py_slice ''00:99:00,000'' None (Some (- 10)))
   \<and> list_all isdigit (py_slice ''00:99:00,000'' (Some (- 9)) (Some (- 7)))
   \<and> list_all isdigit (py_slice ''00:99:00,000'' (Some (- 6)) (Some (- 4)))
   \<and> list_all isdigit (py_slice ''00:99:00,000'' (Some (- 3)) None)
   \<and> srt_timestamp_to_timedelta ''00:99:00,000'' = timedelta 0 99 0 0
   \<and> timedelta 0 99 0 0 = Inr 5940000000"
proof -
  have s: "py_slice ''00:99:00,000'' None (Some (- 10)) = ''00''"
    "py_slice ''00:99:00,000'' (Some (- 9)) (Some (- 7)) = ''99''"
    "py_slice ''00:99:00,000'' (Some (- 6)) (Some (- 4)) = ''00''"
    "py_slice ''00:99:00,000'' (Some (- 3)) None = ''000''"
    by (simp_all add: py_slice_def slice_bound_def)
  have d: "isdigit CHR ''0''" "isdigit CHR ''9''"
    by (simp_all add: isdigit_iff)
  have v: "digits_val 0 ''00'' = 0" "digits_val 0 ''99'' = 99" "digits_val 0 ''000'' = 0"
    by (simp_all add: digit_val_def)
  have t: "timedelta 0 99 0 0 = Inr 5940000000"
    by (simp add: timedelta_def days_def)
  from srt_timestamp_to_timedelta_failures [of "''1:2:3,4''"]
    srt_timestamp_to_timedelta_failures [of "''00:99:00,000''"] s d v t
  show ?thesis by simp
qed

text \<open>
  Claim C8 as stated fails: a text of twelve characters whose hour field is not a number
  makes the parser raise \<^verbatim>\<open>ValueError\<close> as well.
\<close>

theorem srt_timestamp_to_timedelta_not_numeric:
  "length ''xx:00:00,000'' = 12 \<and> srt_timestamp_to_timedelta ''xx:00:00,000'' = Inl ValueError"
  by code_simp

section \<open>The block parser: outcomes\<close>











text \<open>
  When the matches leave a gap and every matched block converts, the exception of
  \<^verbatim>\<open>parse\<close> is the \<^verbatim>\<open>SRTParseError\<close> of the first gap.
\<close>

lemma parse_matches_gap_raises:
  assumes "\<forall>m \<in> set ms. \<exists>sub. subtitle_of_match (snd (snd m)) = Inr sub"
    and "first_gap e ms (length srt) = Some (a, b)"
  shows "snd (parse_matches srt e ms) =
           Some (SRTParseError a b (py_slice srt (Some (int a)) (Some (int b))))"
  using assms
proof (induction srt e ms rule: parse_matches.induct)
  case (1 srt expected_start)
  then show ?case
    by (auto simp: raise_if_not_contiguous_def split: if_splits)
next
  case (2 srt expected_start actual_start match_end c ms)
  from "2.prems"(1) obtain sub where sub: "subtitle_of_match c = Inr sub"
    by auto
  show ?case
  proof (cases "expected_start = actual_start")
    case False
    with "2.prems"(2) show ?thesis
      by (auto simp: raise_if_not_contiguous_def)
  next
    case True
    then have r: "raise_if_not_contiguous srt expected_start actual_start = Inr ()"
      by (simp add: raise_if_not_contiguous_def)
    have "snd (parse_matches srt match_end ms) =
           Some (SRTParseError a b (py_slice srt (Some (int a)) (Some (int b))))"
      using r sub "2.prems" True by (intro "2.IH") auto
    with r sub show ?thesis
      by (simp add: yield_def)
  qed
qed




text \<open>
  Text between two blocks that does not look like a block header is no gap: the content
  group of the block before it extends over it, up to the next header.
\<close>

lemma parse_absorbs_stray_text:
  "parse ''1\<newline>00:00:01,000 --> 00:00:02,000\<newline>x\<newline>\<newline>junk\<newline>2\<newline>00:00:03,000 --> 00:00:04,000\<newline>y\<newline>\<newline>'' =
     ([\<lparr>index = 1, start_ts = ''00:00:01,000'', start_timedelta = 1000000,
        end_ts = ''00:00:02,000'', end_timedelta = 2000000,
        contents = ''x\<newline>\<newline>junk'', proprietary = Some []\<rparr>,
       \<lparr>index = 2, start_ts = ''00:00:03,000'', start_timedelta = 3000000,
        end_ts = ''00:00:04,000'', end_timedelta = 4000000, contents = ''y'',
        proprietary = Some []\<rparr>], None)"
  by code_simp

section \<open>Consistency of the duration fields\<close>

lemma subtitle_of_match_consistent:
  assumes "subtitle_of_match c = Inr sub"
  shows "srt_timestamp_to_timedelta (start_ts sub) = Inr (start_timedelta sub)
         \<and> srt_timestamp_to_timedelta (end_ts sub) = Inr (end_timedelta sub)"
  using assms
  by (auto simp: subtitle_of_match_def bind_err_def Let_def Subtitle_init_def split: sum.splits)

lemma parse_matches_consistent:
  "sub \<in> set (fst (parse_matches srt e ms)) \<Longrightarrow>
     srt_timestamp_to_timedelta (start_ts sub) = Inr (start_timedelta sub)
     \<and> srt_timestamp_to_timedelta (end_ts sub) = Inr (end_timedelta sub)"
proof (induction srt e ms rule: parse_matches.induct)
  case (1 srt expected_start)
  then show ?case by (simp split: sum.splits)
next
  case (2 srt expected_start actual_start match_end c ms)
  show ?case
  proof (cases "raise_if_not_contiguous srt expected_start actual_start")
    case (Inl err)
    with "2.prems" show ?thesis by simp
  next
    case r: (Inr u)
    show ?thesis
    proof (cases "subtitle_of_match c")
      case (Inl err)
      with r "2.prems" show ?thesis by simp
    next
      case (Inr s)
      with r "2.prems" have "sub = s \<or> sub \<in> set (fst (parse_matches srt match_end ms))"
        by (simp add: yield_def)
      then show ?thesis
      proof
        assume "sub = s"
        with Inr show ?thesis by (simp add: subtitle_of_match_consistent)
      next
        assume "sub \<in> set (fst (parse_matches srt match_end ms))"
        with r Inr show ?thesis by (intro "2.IH") auto
      qed
    qed
  qed
qed

text \<open>
  Claim C10. A subtitle that \<^verbatim>\<open>make_a_subtitle\<close> returns, and every subtitle that
  \<^verbatim>\<open>parse\<close> yields, holds in its duration fields what the timestamp parser makes of its
  timestamp texts.
\<close>

theorem subtitle_timedelta_consistent:
  "(make_a_subtitle idx start content end prop = Inr sub \<longrightarrow>
      srt_timestamp_to_timedelta (start_ts sub) = Inr (start_timedelta sub)
      \<and> srt_timestamp_to_timedelta (end_ts sub) = Inr (end_timedelta sub))
   \<and> (sub' \<in> set (fst (parse srt)) \<longrightarrow>
      srt_timestamp_to_timedelta (start_ts sub') = Inr (start_timedelta sub')
      \<and> srt_timestamp_to_timedelta (end_ts sub') = Inr (end_timedelta sub'))"
proof (intro conjI impI)
  assume "make_a_subtitle idx start content end prop = Inr sub"
  then show "srt_timestamp_to_timedelta (start_ts sub) = Inr (start_timedelta sub)"
    and "srt_timestamp_to_timedelta (end_ts sub) = Inr (end_timedelta sub)"
    by (auto simp: make_a_subtitle_def bind_err_def Subtitle_init_def split: sum.splits)
next
  assume "sub' \<in> set (fst (parse srt))"
  then show "srt_timestamp_to_timedelta (start_ts sub') = Inr (start_timedelta sub')"
    and "srt_timestamp_to_timedelta (end_ts sub') = Inr (end_timedelta sub')"
    unfolding parse_def by (auto dest: parse_matches_consistent)
qed

theorem subtitle_timedelta_consistent_witness:
  "make_a_subtitle 1 ''00:00:01,000'' ''x'' ''00:00:02,000'' None =
     Inr \<lparr>index = 1, start_ts = ''00:00:01,000'', start_timedelta = 1000000,
          end_ts = ''00:00:02,000'', end_timedelta = 2000000, contents = ''x'',
          proprietary = None\<rparr>
   \<and> srt_timestamp_to_timedelta ''00:00:01,000'' = Inr 1000000
   \<and> srt_timestamp_to_timedelta ''00:00:02,000'' = Inr 2000000
   \<and> fst (parse ''7\<newline>00:00:03.000 --> 00:00:04:500 X1:40\<newline>y\<newline>\<newline>'') =
       [\<lparr>index = 7, start_ts = ''00:00:03.000'', start_timedelta = 3000000,
          end_ts = ''00:00:04:500'', end_timedelta = 4500000, contents = ''y'',
          proprietary = Some ''X1:40''\<rparr>]
   \<and> srt_timestamp_to_timedelta ''00:00:03.000'' = Inr 3000000
   \<and> srt_timestamp_to_timedelta ''00:00:04:500'' = Inr 4500000"
proof -
  let ?s = "\<lparr>index = 1, start_ts = ''00:00:01,000'', start_timedelta = 1000000,
          end_ts = ''00:00:02,000'', end_timedelta = 2000000, contents = ''x'',
          proprietary = None\<rparr>"
  let ?t = "\<lparr>index = 7, start_ts = ''00:00:03.000'', start_timedelta = 3000000,
          end_ts = ''00:00:04:500'', end_timedelta = 4500000, contents = ''y'',
          proprietary = Some ''X1:40''\<rparr>"
  let ?srt = "''7\<newline>00:00:03.000 --> 00:00:04:500 X1:40\<newline>y\<newline>\<newline>''"
  have m: "make_a_subtitle 1 ''00:00:01,000'' ''x'' ''00:00:02,000'' None = Inr ?s"
    by code_simp
  have p: "fst (parse ?srt) = [?t]"
    by code_simp
  from subtitle_timedelta_consistent [of 1 "''00:00:01,000''" "''x''" "''00:00:02,000''" None ?s ?t ?srt]
    m p
  show ?thesis by simp
qed

section \<open>Sanitizer and composer on the entity as stored\<close>

lemma Subtitle_from_vars_raises: "Subtitle_from_vars s = Inl TypeError"
  by (simp add: Subtitle_from_vars_def vars_def Subtitle_init_params_def)

lemma getattr_content: "getattr s ''content'' = Inl (AttributeError ''content'')"
  by (simp add: getattr_def vars_def)

lemma should_skip_sub_raises: "should_skip_sub s = Inl (AttributeError ''content'')"
  by (simp add: should_skip_sub_def SUBTITLE_SKIP_CONDITIONS_def getattr_content bind_err_def)

lemma to_srt_raises: "to_srt s strict eol = Inl (AttributeError ''content'')"
  by (simp add: to_srt_def getattr_content bind_err_def)

lemma Subtitle_lt_key:
  "Subtitle_lt a b \<longleftrightarrow> (start_ts a, end_ts a) < (start_ts b, end_ts b)"
  by (auto simp: Subtitle_lt_def less_prod_def)

lemma sorted_subtitles_not_Nil: "subtitles \<noteq> [] \<Longrightarrow> sorted_subtitles subtitles \<noteq> []"
  by (metis sorted_subtitles_def length_sort length_0_conv)

lemma sort_and_reindex_nonempty:
  assumes "subtitles \<noteq> []"
  shows "sort_and_reindex subtitles start_index False = ([], Some TypeError)"
    and "sort_and_reindex subtitles start_index True = ([], Some (AttributeError ''content''))"
proof -
  from assms obtain s rest where "sorted_subtitles subtitles = s # rest"
    using sorted_subtitles_not_Nil by (cases "sorted_subtitles subtitles") auto
  then show "sort_and_reindex subtitles start_index False = ([], Some TypeError)"
    and "sort_and_reindex subtitles start_index True = ([], Some (AttributeError ''content''))"
    by (simp_all add: sort_and_reindex_def Subtitle_from_vars_raises should_skip_sub_raises)
qed

lemma sort_and_reindex_empty: "sort_and_reindex [] start_index in_place = ([], None)"
  by (simp add: sort_and_reindex_def sorted_subtitles_def)

lemma compose_nonempty:
  assumes "subtitles \<noteq> []"
  shows "compose subtitles True start_index strict eol = Inl TypeError"
    and "compose subtitles False start_index strict eol = Inl (AttributeError ''content'')"
proof -
  show "compose subtitles True start_index strict eol = Inl TypeError"
    using assms by (simp add: compose_def sort_and_reindex_nonempty bind_err_def)
  from assms obtain s rest where "subtitles = s # rest"
    by (cases subtitles) auto
  then show "compose subtitles False start_index strict eol = Inl (AttributeError ''content'')"
    by (simp add: compose_def to_srt_raises bind_err_def)
qed

lemma compose_empty: "compose [] reindex start_index strict eol = Inr []"
  by (simp add: compose_def sort_and_reindex_empty bind_err_def)

text \<open>
  Claim C4 is not met by the code. One valid subtitle, which the claim has survive with
  index 1: \<^verbatim>\<open>sort_and_reindex\<close> yields nothing and raises, \<^verbatim>\<open>TypeError\<close> from
  \<^verbatim>\<open>Subtitle(**vars(subtitle))\<close> in the default mode, \<^verbatim>\<open>AttributeError\<close> from
  \<^verbatim>\<open>sub.content\<close> with \<^verbatim>\<open>in_place=True\<close>.
\<close>

theorem sort_and_reindex_valid_subtitle_raises:
  "sort_and_reindex
     [\<lparr>index = 5, start_ts = ''00:00:01,000'', start_timedelta = 1000000,
       end_ts = ''00:00:02,000'', end_timedelta = 2000000, contents = ''x'',
       proprietary = Some []\<rparr>] 1 False = ([], Some TypeError)
   \<and> sort_and_reindex
     [\<lparr>index = 5, start_ts = ''00:00:01,000'', start_timedelta = 1000000,
       end_ts = ''00:00:02,000'', end_timedelta = 2000000, contents = ''x'',
       proprietary = Some []\<rparr>] 1 True = ([], Some (AttributeError ''content''))"
  by (simp add: sort_and_reindex_nonempty)

text \<open>
  Claim C5 is not met by the code. On two valid subtitles the default mode
  (\<^verbatim>\<open>in_place=False\<close>) does not succeed: \<^verbatim>\<open>list(sort_and_reindex(subs))\<close> raises
  \<^verbatim>\<open>TypeError\<close>, and \<^verbatim>\<open>in_place=True\<close> raises \<^verbatim>\<open>AttributeError\<close>.
\<close>

theorem sort_and_reindex_default_mode_raises:
  "list_of (sort_and_reindex
     [\<lparr>index = 999, start_ts = ''00:00:03,000'', start_timedelta = 3000000,
       end_ts = ''00:00:04,000'', end_timedelta = 4000000, contents = ''2'',
       proprietary = Some []\<rparr>,
      \<lparr>index = 0, start_ts = ''00:00:01,000'', start_timedelta = 1000000,
       end_ts = ''00:00:02,000'', end_timedelta = 2000000, contents = ''1'',
       proprietary = Some []\<rparr>] 1 False) = Inl TypeError
   \<and> list_of (sort_and_reindex
     [\<lparr>index = 999, start_ts = ''00:00:03,000'', start_timedelta = 3000000,
       end_ts = ''00:00:04,000'', end_timedelta = 4000000, contents = ''2'',
       proprietary = Some []\<rparr>,
      \<lparr>index = 0, start_ts = ''00:00:01,000'', start_timedelta = 1000000,
       end_ts = ''00:00:02,000'', end_timedelta = 2000000, contents = ''1'',
       proprietary = Some []\<rparr>] 1 True) = Inl (AttributeError ''content'')"
  by (simp add: sort_and_reindex_nonempty list_of_def)

text \<open>
  Claim C6 is not met by the code. The text of one block parses to a sanitized sequence of
  one subtitle, and \<^verbatim>\<open>compose\<close> of that sequence raises instead of returning the text:
  \<^verbatim>\<open>TypeError\<close> with \<^verbatim>\<open>reindex=True\<close>, \<^verbatim>\<open>AttributeError\<close> from \<^verbatim>\<open>to_srt\<close> with
  \<^verbatim>\<open>reindex=False\<close>.
\<close>

theorem compose_parsed_block_raises:
  "parse ''1\<newline>00:00:01,000 --> 00:00:02,000\<newline>x\<newline>\<newline>'' =
     ([\<lparr>index = 1, start_ts = ''00:00:01,000'', start_timedelta = 1000000,
        end_ts = ''00:00:02,000'', end_timedelta = 2000000, contents = ''x'',
        proprietary = Some []\<rparr>], None)
   \<and> compose (fst (parse ''1\<newline>00:00:01,000 --> 00:00:02,000\<newline>x\<newline>\<newline>'')) True 1 True None
       = Inl TypeError
   \<and> compose (fst (parse ''1\<newline>00:00:01,000 --> 00:00:02,000\<newline>x\<newline>\<newline>'')) False 1 True None
       = Inl (AttributeError ''content'')"
proof -
  have p: "parse ''1\<newline>00:00:01,000 --> 00:00:02,000\<newline>x\<newline>\<newline>'' =
     ([\<lparr>index = 1, start_ts = ''00:00:01,000'', start_timedelta = 1000000,
        end_ts = ''00:00:02,000'', end_timedelta = 2000000, contents = ''x'',
        proprietary = Some []\<rparr>], None)"
    by code_simp
  show ?thesis
    unfolding p by (simp add: compose_nonempty)
qed

section \<open>Rounding to a double\<close>

lemma pow2_powi: "pow2 e = 2 powi e"
  by (simp add: pow2_def power_int_def inverse_eq_divide power_one_over)

lemma pow2_pos: "0 < pow2 e"
  by (simp add: pow2_powi)

lemma pow2_mono: "m \<le> n \<Longrightarrow> pow2 m \<le> pow2 n"
  by (simp add: pow2_powi power_int_increasing)

lemma pow2_less_imp_less: "pow2 m < pow2 n \<Longrightarrow> m < n"
  using pow2_mono [of n m] by (cases "m < n") auto

lemma ilog2_bounds:
  "1 \<le> n \<Longrightarrow> 0 \<le> ilog2 n \<and> 2 ^ nat (ilog2 n) \<le> n \<and> n < 2 * 2 ^ nat (ilog2 n)"
proof (induction n rule: ilog2.induct)
  case (1 n)
  show ?case
  proof (cases "n < 2")
    case True
    with "1.prems" have "n = 1" by simp
    then show ?thesis by (simp add: ilog2.simps [of 1])
  next
    case False
    define k where "k = ilog2 (n div 2)"
    from False have "1 \<le> n div 2" by simp
    with False "1.IH" have IH: "0 \<le> k" "2 ^ nat k \<le> n div 2" "n div 2 < 2 * 2 ^ nat k"
      unfolding k_def by simp_all
    have il: "ilog2 n = 1 + k"
      using False by (simp add: ilog2.simps [of n] k_def)
    have nat: "nat (1 + k) = Suc (nat k)"
      using IH(1) by simp
    have "2 * (n div 2) \<le> n" "n < 2 * (n div 2) + 2"
      by simp_all
    with IH show ?thesis
      unfolding il nat by simp
  qed
qed

lemma floor_log2_lower:
  assumes "0 < x"
  shows "pow2 (floor_log2 x) \<le> x"
proof -
  obtain a b where q: "quotient_of x = (a, b)"
    by (cases "quotient_of x")
  then have b: "0 < b" and x: "x = of_int a / of_int b"
    by (rule quotient_of_denom_pos, rule quotient_of_div)
  have a: "0 < a"
    using assms b unfolding x by (simp add: zero_less_divide_iff)
  define la lb where "la = ilog2 a" and "lb = ilog2 b"
  have A: "0 \<le> la" "2 ^ nat la \<le> a"
    using ilog2_bounds [of a] a by (simp_all add: la_def)
  have B: "0 \<le> lb" "b < 2 * 2 ^ nat lb"
    using ilog2_bounds [of b] b by (simp_all add: lb_def)
  have fl: "floor_log2 x = (if pow2 (la - lb) \<le> x then la - lb else la - lb - 1)"
    by (simp add: floor_log2_def q la_def lb_def)
  show ?thesis
  proof (cases "pow2 (la - lb) \<le> x")
    case True
    with fl show ?thesis by simp
  next
    case False
    have "pow2 (la - lb - 1) = 2 powi la / 2 powi (lb + 1)"
      by (simp add: pow2_powi power_int_diff algebra_simps)
    also have "\<dots> = (2 ^ nat la) / (2 * 2 ^ nat lb)"
      using A(1) B(1) by (simp add: power_int_def nat_add_distrib)
    also have "\<dots> \<le> of_int a / of_int b"
    proof (rule frac_le)
      show "(0::rat) \<le> of_int a" using a by simp
      have "of_int (2 ^ nat la) \<le> (of_int a :: rat)"
        using A(2) by (simp only: of_int_le_iff)
      then show "(2::rat) ^ nat la \<le> of_int a" by simp
      show "(0::rat) < of_int b" using b by simp
      have "(of_int b :: rat) \<le> of_int (2 * 2 ^ nat lb)"
        using B(2) by (simp only: of_int_le_iff)
      then show "(of_int b :: rat) \<le> 2 * 2 ^ nat lb" by simp
    qed
    finally show ?thesis
      using False fl x by simp
  qed
qed

lemma floor_log2_upper:
  assumes "0 < x" "x < pow2 (n + 1)"
  shows "floor_log2 x \<le> n"
proof -
  have "pow2 (floor_log2 x) < pow2 (n + 1)"
    using floor_log2_lower [OF assms(1)] assms(2) by simp
  then have "floor_log2 x < n + 1"
    by (rule pow2_less_imp_less)
  then show ?thesis by simp
qed

lemma round_half_even_error: "\<bar>of_int (round_half_even y) - y\<bar> \<le> 1 / 2"
proof -
  define f where "f = \<lfloor>y\<rfloor>"
  have "of_int f \<le> y" "y < of_int f + 1"
    unfolding f_def by linarith+
  then show ?thesis
    unfolding round_half_even_def Let_def f_def [symmetric]
    by (auto simp: abs_if)
qed

lemma round_double_error:
  assumes "\<bar>q\<bar> < pow2 (n + 1)"
  shows "\<bar>round_double q - q\<bar> \<le> pow2 (n - 52) / 2"
proof (cases "q = 0")
  case True
  then show ?thesis using pow2_pos [of "n - 52"] by (simp add: round_double_def)
next
  case False
  define x where "x = \<bar>q\<bar>"
  define e where "e = floor_log2 x - 52"
  define m where "m = round_half_even (x / pow2 e)"
  have x: "0 < x" using False by (simp add: x_def)
  have e: "e \<le> n - 52"
    using floor_log2_upper [OF x] assms by (simp add: e_def x_def)
  have r: "round_double q = sgn q * of_int m * pow2 e"
    using False by (simp add: round_double_def Let_def x_def e_def m_def)
  have q: "q = sgn q * x"
    by (simp add: x_def sgn_mult_abs)
  have "round_double q - q = sgn q * (of_int m * pow2 e - x)"
    by (subst (2) q) (simp add: r algebra_simps)
  also have "of_int m * pow2 e - x = (of_int m - x / pow2 e) * pow2 e"
    using pow2_pos [of e] by (simp add: field_simps)
  finally have "\<bar>round_double q - q\<bar> = \<bar>of_int m - x / pow2 e\<bar> * pow2 e"
    using False pow2_pos [of e] by (simp add: abs_mult abs_sgn_eq)
  also have "\<dots> \<le> 1 / 2 * pow2 e"
    using round_half_even_error [of "x / pow2 e"] pow2_pos [of e]
    by (intro mult_right_mono) (simp_all add: m_def)
  also have "\<dots> \<le> 1 / 2 * pow2 (n - 52)"
    using pow2_mono [OF e] by simp
  finally show ?thesis by simp
qed

lemma microseconds_div: "microseconds t div 1000000 = 0"
  unfolding microseconds_def by (rule div_pos_pos_trivial) simp_all

lemma deltatime_2_timestamp_error:
  assumes "0 \<le> t" "t < 8589934592000000"
  shows "\<bar>deltatime_2_timestamp t - of_int t / 1000000\<bar> \<le> 3 / 2097152"
proof -
  define x :: rat where "x = of_int t / 1000000"
  define y where "y = total_seconds t"
  have "(of_int t :: rat) < of_int 8589934592000000"
    using assms(2) by (simp only: of_int_less_iff)
  then have x: "0 \<le> x" "x < 8589934592"
    using assms(1) by (simp_all add: x_def)
  have p33: "pow2 33 = 8589934592" and p34: "pow2 34 = 17179869184"
    and p20: "pow2 (- 20) / 2 = 1 / 2097152" and p19: "pow2 (- 19) / 2 = 1 / 1048576"
    by (simp_all add: pow2_def)
  have "\<bar>x\<bar> < pow2 (32 + 1)"
    using x by (simp add: p33)
  then have "\<bar>round_double x - x\<bar> \<le> pow2 (32 - 52) / 2"
    by (rule round_double_error)
  then have 1: "\<bar>y - x\<bar> \<le> 1 / 2097152"
    by (simp add: y_def total_seconds_def x_def p20)
  then have "\<bar>y\<bar> < 17179869184"
    using x by (simp add: abs_if split: if_splits)
  then have "\<bar>y\<bar> < pow2 (33 + 1)"
    by (simp add: p34)
  then have "\<bar>round_double y - y\<bar> \<le> pow2 (33 - 52) / 2"
    by (rule round_double_error)
  then have 2: "\<bar>round_double y - y\<bar> \<le> 1 / 1048576"
    by (simp add: p19)
  have "deltatime_2_timestamp t = round_double y"
    by (simp add: deltatime_2_timestamp_def microseconds_div y_def)
  with 1 2 show ?thesis
    unfolding x_def [symmetric] by (simp add: abs_if split: if_splits)
qed

lemma deltatime_2_timestamp_strict_mono:
  assumes "0 \<le> a" "a < b" "b < 8589934592000000" "a mod 1000 = 0" "b mod 1000 = 0"
  shows "deltatime_2_timestamp a < deltatime_2_timestamp b"
proof -
  from assms(4,5) obtain a' b' where ab: "a = 1000 * a'" "b = 1000 * b'"
    by (metis mod_eq_0_iff_dvd dvd_def)
  with assms(2) have "a' + 1 \<le> b'" by simp
  then have "a + 1000 \<le> b" using ab by simp
  then have "(of_int (a + 1000) :: rat) \<le> of_int b"
    by (simp only: of_int_le_iff)
  then have d: "(of_int a :: rat) / 1000000 + 1 / 1000 \<le> of_int b / 1000000"
    by simp
  have ea: "\<bar>deltatime_2_timestamp a - of_int a / 1000000\<bar> \<le> 3 / 2097152"
    using assms by (intro deltatime_2_timestamp_error) simp_all
  have eb: "\<bar>deltatime_2_timestamp b - of_int b / 1000000\<bar> \<le> 3 / 2097152"
    using assms by (intro deltatime_2_timestamp_error) simp_all
  from d ea eb show ?thesis
    by (simp add: abs_if split: if_splits)
qed

section \<open>The alignment engine\<close>

lemma seconds_less_iff:
  assumes mono: "\<And>a b. a \<in> T \<Longrightarrow> b \<in> T \<Longrightarrow> a < b \<Longrightarrow>
      deltatime_2_timestamp a < deltatime_2_timestamp b"
    and "a \<in> T" "b \<in> T"
  shows "deltatime_2_timestamp a < deltatime_2_timestamp b \<longleftrightarrow> a < b"
proof
  assume "a < b"
  with assms show "deltatime_2_timestamp a < deltatime_2_timestamp b" by blast
next
  assume l: "deltatime_2_timestamp a < deltatime_2_timestamp b"
  show "a < b"
  proof (rule ccontr)
    assume "\<not> a < b"
    then have "b < a \<or> b = a" by auto
    then have "deltatime_2_timestamp b \<le> deltatime_2_timestamp a"
      using mono [OF assms(3) assms(2)] by auto
    with l show False by simp
  qed
qed

lemma seconds_max:
  assumes mono: "\<And>a b. a \<in> T \<Longrightarrow> b \<in> T \<Longrightarrow> a < b \<Longrightarrow>
      deltatime_2_timestamp a < deltatime_2_timestamp b"
    and "a \<in> T" "b \<in> T"
  shows "(if deltatime_2_timestamp a \<ge> deltatime_2_timestamp b
          then deltatime_2_timestamp a else deltatime_2_timestamp b)
         = deltatime_2_timestamp (max a b)"
  using seconds_less_iff [OF mono assms(2) assms(3)] seconds_less_iff [OF mono assms(3) assms(2)]
  by (auto simp: max_def)

lemma seconds_min:
  assumes mono: "\<And>a b. a \<in> T \<Longrightarrow> b \<in> T \<Longrightarrow> a < b \<Longrightarrow>
      deltatime_2_timestamp a < deltatime_2_timestamp b"
    and "a \<in> T" "b \<in> T"
  shows "(if deltatime_2_timestamp a \<le> deltatime_2_timestamp b
          then deltatime_2_timestamp a else deltatime_2_timestamp b)
         = deltatime_2_timestamp (min a b)"
  using seconds_less_iff [OF mono assms(2) assms(3)] seconds_less_iff [OF mono assms(3) assms(2)]
  by (auto simp: min_def)

lemma matched_row_list_spec:
  assumes mono: "\<And>a b. a \<in> T \<Longrightarrow> b \<in> T \<Longrightarrow> a < b \<Longrightarrow>
      deltatime_2_timestamp a < deltatime_2_timestamp b"
    and f: "start_timedelta f \<in> T" "end_timedelta f \<in> T"
    and s: "\<forall>s \<in> set second. start_timedelta s \<in> T \<and> end_timedelta s \<in> T"
  shows "map aligned_record_of (matched_row_list f second) =
         map (\<lambda>s. (deltatime_2_timestamp (max (start_timedelta f) (start_timedelta s)),
                    deltatime_2_timestamp (min (end_timedelta f) (end_timedelta s)),
                    contents f, contents s))
           (filter (\<lambda>s. max (start_timedelta f) (start_timedelta s)
                           < min (end_timedelta f) (end_timedelta s)) second)"
  using s
proof (induction second)
  case Nil
  show ?case by simp
next
  case (Cons s rest)
  define L R where "L = max (start_timedelta f) (start_timedelta s)"
    and "R = min (end_timedelta f) (end_timedelta s)"
  define spec where "spec = (\<lambda>s::Subtitle. (deltatime_2_timestamp (max (start_timedelta f) (start_timedelta s)),
                    deltatime_2_timestamp (min (end_timedelta f) (end_timedelta s)),
                    contents f, contents s))"
  define keep where "keep = (\<lambda>s::Subtitle. max (start_timedelta f) (start_timedelta s)
                           < min (end_timedelta f) (end_timedelta s))"
  from Cons.prems have sT: "start_timedelta s \<in> T" "end_timedelta s \<in> T" by simp_all
  have mx: "L \<in> T" and mn: "R \<in> T"
    using f sT by (auto simp: L_def R_def max_def min_def)
  note l = seconds_max [OF mono f(1) sT(1), folded L_def]
  note r = seconds_min [OF mono f(2) sT(2), folded R_def]
  have c: "deltatime_2_timestamp L < deltatime_2_timestamp R \<longleftrightarrow> keep s"
    using seconds_less_iff [OF mono mx mn] by (simp add: keep_def L_def R_def)
  have IH: "map aligned_record_of (matched_row_list f rest) = map spec (filter keep rest)"
    using Cons unfolding spec_def keep_def by simp
  have here: "spec s = (deltatime_2_timestamp L, deltatime_2_timestamp R, contents f, contents s)"
    by (simp add: spec_def L_def R_def)
  have step: "matched_row_list f (s # rest) =
      (if deltatime_2_timestamp L < deltatime_2_timestamp R
       then \<lparr>f_start = deltatime_2_timestamp (start_timedelta f),
             f_end = deltatime_2_timestamp (end_timedelta f),
             s_start = deltatime_2_timestamp (start_timedelta s),
             s_end = deltatime_2_timestamp (end_timedelta s),
             left_ts = deltatime_2_timestamp L, right_ts = deltatime_2_timestamp R,
             f_contents = contents f, s_contents = contents s\<rparr>
            # matched_row_list f rest
       else matched_row_list f rest)"
    by (simp only: matched_row_list.simps Let_def l r)
  have "map aligned_record_of (matched_row_list f (s # rest)) = map spec (filter keep (s # rest))"
  proof (cases "keep s")
    case True
    then have "deltatime_2_timestamp L < deltatime_2_timestamp R" using c by simp
    then have "map aligned_record_of (matched_row_list f (s # rest))
               = (deltatime_2_timestamp L, deltatime_2_timestamp R, contents f, contents s)
                 # map aligned_record_of (matched_row_list f rest)"
      by (simp only: step if_True list.map aligned_record_of_def matched_row.simps)
    with True IH here show ?thesis by simp
  next
    case False
    then have "\<not> deltatime_2_timestamp L < deltatime_2_timestamp R" using c by simp
    then have "map aligned_record_of (matched_row_list f (s # rest))
               = map aligned_record_of (matched_row_list f rest)"
      by (simp only: step if_False)
    with False IH show ?thesis by simp
  qed
  then show ?case unfolding spec_def keep_def .
qed

lemma all_matched_list_concat:
  "all_matched_list first second = concat (map (\<lambda>f. matched_row_list f second) first)"
  by (induction first) (auto simp: Let_def)

lemma spec_aligned_records_Cons:
  "spec_aligned_records (f # first) second =
     map (\<lambda>s. (deltatime_2_timestamp (max (start_timedelta f) (start_timedelta s)),
                deltatime_2_timestamp (min (end_timedelta f) (end_timedelta s)),
                contents f, contents s))
       (filter (\<lambda>s. max (start_timedelta f) (start_timedelta s)
                       < min (end_timedelta f) (end_timedelta s)) second)
     @ spec_aligned_records first second"
  by (simp add: spec_aligned_records_def filter_map map_concat comp_def)

lemma all_matched_list_spec:
  assumes mono: "\<And>a b. a \<in> T \<Longrightarrow> b \<in> T \<Longrightarrow> a < b \<Longrightarrow>
      deltatime_2_timestamp a < deltatime_2_timestamp b"
    and f: "\<forall>f \<in> set first. start_timedelta f \<in> T \<and> end_timedelta f \<in> T"
    and s: "\<forall>s \<in> set second. start_timedelta s \<in> T \<and> end_timedelta s \<in> T"
  shows "map aligned_record_of (all_matched_list first second) = spec_aligned_records first second"
  using f
proof (induction first)
  case Nil
  show ?case by (simp add: spec_aligned_records_def)
next
  case (Cons f rest)
  then have fT: "start_timedelta f \<in> T" "end_timedelta f \<in> T" by simp_all
  have IH: "map aligned_record_of (all_matched_list rest second) = spec_aligned_records rest second"
    using Cons by simp
  show ?case
    unfolding spec_aligned_records_Cons
    using matched_row_list_spec [OF mono fT s] IH
    by (simp add: all_matched_list_concat)
qed

lemma track_times_member:
  "s \<in> set first \<or> s \<in> set second \<Longrightarrow>
     start_timedelta s \<in> set (track_times first second)
     \<and> end_timedelta s \<in> set (track_times first second)"
  by (auto simp: track_times_def)

lemma all_matched_list_order_preserving:
  assumes "\<forall>a \<in> set (track_times first second). \<forall>b \<in> set (track_times first second).
             a < b \<longrightarrow> deltatime_2_timestamp a < deltatime_2_timestamp b"
  shows "map aligned_record_of (all_matched_list first second) = spec_aligned_records first second"
proof (rule all_matched_list_spec [where T = "set (track_times first second)"])
  fix a b
  assume "a \<in> set (track_times first second)" "b \<in> set (track_times first second)" "a < b"
  with assms show "deltatime_2_timestamp a < deltatime_2_timestamp b" by blast
next
  show "\<forall>f \<in> set first. start_timedelta f \<in> set (track_times first second)
          \<and> end_timedelta f \<in> set (track_times first second)"
    using track_times_member by blast
next
  show "\<forall>s \<in> set second. start_timedelta s \<in> set (track_times first second)
          \<and> end_timedelta s \<in> set (track_times first second)"
    using track_times_member by blast
qed

text \<open>
  Claim C2, as the code has it. The engine compares the times as floating-point seconds.
  For two tracks whose start and end times are multiples of a millisecond from 0 to
  below \<open>2\<^sup>3\<^sup>3\<close> seconds, the rows it appends are, in the order of the cross product
  (first track, then second track within), exactly one for each pair with
  \<open>max (f.start, s.start) < min (f.end, s.end)\<close>, holding these two bounds in seconds and
  the two texts; nothing is merged, dropped or reordered.
\<close>

theorem all_matched_list_cross_product:
  assumes "\<forall>t \<in> set (track_times first second).
             0 \<le> t \<and> t < 8589934592000000 \<and> t mod 1000 = 0"
  shows "map aligned_record_of (all_matched_list first second) = spec_aligned_records first second"
proof (rule all_matched_list_order_preserving, intro ballI impI)
  fix a b
  assume "a \<in> set (track_times first second)" "b \<in> set (track_times first second)" "a < b"
  with assms show "deltatime_2_timestamp a < deltatime_2_timestamp b"
    by (intro deltatime_2_timestamp_strict_mono) auto
qed

theorem all_matched_list_cross_product_witness:
  "track_times
        [\<lparr>index = 1, start_ts = ''00:00:01,000'', start_timedelta = 1000000,
          end_ts = ''00:00:03,000'', end_timedelta = 3000000, contents = ''Hello'',
          proprietary = Some []\<rparr>]
        [\<lparr>index = 1, start_ts = ''00:00:00,500'', start_timedelta = 500000,
          end_ts = ''00:00:02,000'', end_timedelta = 2000000, contents = ''Bonjour'',
          proprietary = Some []\<rparr>,
         \<lparr>index = 2, start_ts = ''00:00:02,500'', start_timedelta = 2500000,
          end_ts = ''00:00:04,000'', end_timedelta = 4000000, contents = ''Au revoir'',
          proprietary = Some []\<rparr>]
     = [1000000, 3000000, 500000, 2000000, 2500000, 4000000]
   \<and> map aligned_record_of (all_matched_list
        [\<lparr>index = 1, start_ts = ''00:00:01,000'', start_timedelta = 1000000,
          end_ts = ''00:00:03,000'', end_timedelta = 3000000, contents = ''Hello'',
          proprietary = Some []\<rparr>]
        [\<lparr>index = 1, start_ts = ''00:00:00,500'', start_timedelta = 500000,
          end_ts = ''00:00:02,000'', end_timedelta = 2000000, contents = ''Bonjour'',
          proprietary = Some []\<rparr>,
         \<lparr>index = 2, start_ts = ''00:00:02,500'', start_timedelta = 2500000,
          end_ts = ''00:00:04,000'', end_timedelta = 4000000, contents = ''Au revoir'',
          proprietary = Some []\<rparr>])
     = [(1, 2, ''Hello'', ''Bonjour''), (5 / 2, 3, ''Hello'', ''Au revoir'')]"
proof -
  let ?first = "[\<lparr>index = 1, start_ts = ''00:00:01,000'', start_timedelta = 1000000,
          end_ts = ''00:00:03,000'', end_timedelta = 3000000, contents = ''Hello'',
          proprietary = Some []\<rparr>]"
  let ?second = "[\<lparr>index = 1, start_ts = ''00:00:00,500'', start_timedelta = 500000,
          end_ts = ''00:00:02,000'', end_timedelta = 2000000, contents = ''Bonjour'',
          proprietary = Some []\<rparr>,
         \<lparr>index = 2, start_ts = ''00:00:02,500'', start_timedelta = 2500000,
          end_ts = ''00:00:04,000'', end_timedelta = 4000000, contents = ''Au revoir'',
          proprietary = Some []\<rparr>]"
  have h: "\<forall>t \<in> set (track_times ?first ?second).
             0 \<le> t \<and> t < 8589934592000000 \<and> t mod 1000 = 0"
    by (simp add: track_times_def)
  have s: "spec_aligned_records ?first ?second
           = [(1, 2, ''Hello'', ''Bonjour''), (5 / 2, 3, ''Hello'', ''Au revoir'')]"
    by code_simp
  have t: "track_times ?first ?second = [1000000, 3000000, 500000, 2000000, 2500000, 4000000]"
    by (simp add: track_times_def)
  from all_matched_list_cross_product [OF h] s t show ?thesis
    by simp
qed

text \<open>
  Claim C2 as stated fails. At 20000000000 hours two times one millisecond apart are the
  same number of floating-point seconds. The block below parses to a subtitle that lasts
  from the one to the other; aligned with itself, the pair has
  \<open>max (f.start, s.start) < min (f.end, s.end)\<close>, and the engine appends no row.
\<close>

theorem all_matched_list_far_timestamps:
  "fst (parse ''1\<newline>20000000000:00:00,000 --> 20000000000:00:00,001\<newline>x\<newline>\<newline>'') =
     [\<lparr>index = 1, start_ts = ''20000000000:00:00,000'',
       start_timedelta = 72000000000000000000,
       end_ts = ''20000000000:00:00,001'', end_timedelta = 72000000000000001000,
       contents = ''x'', proprietary = Some []\<rparr>]
   \<and> max (72000000000000000000 :: timedelta) 72000000000000000000
       < min 72000000000000001000 72000000000000001000
   \<and> all_matched_list
        [\<lparr>index = 1, start_ts = ''20000000000:00:00,000'',
          start_timedelta = 72000000000000000000,
          end_ts = ''20000000000:00:00,001'', end_timedelta = 72000000000000001000,
          contents = ''x'', proprietary = Some []\<rparr>]
        [\<lparr>index = 1, start_ts = ''20000000000:00:00,000'',
          start_timedelta = 72000000000000000000,
          end_ts = ''20000000000:00:00,001'', end_timedelta = 72000000000000001000,
          contents = ''x'', proprietary = Some []\<rparr>] = []"
  by code_simp

section \<open>The text written for an aligned record\<close>

lemma isdigit_not_colon: "isdigit c \<Longrightarrow> c \<noteq> CHR '':''"
  by (auto simp: isdigit_iff)

lemma decimal_digits_isdigit: "list_all isdigit (decimal_digits n)"
proof (induction n rule: decimal_digits.induct)
  case (1 n)
  show ?case
  proof (cases "n < 10")
    case True
    then have "nat n < 10" by simp
    with True show ?thesis
      by (subst decimal_digits.simps) (simp add: isdigit_digit_char)
  next
    case False
    have "nat (n mod 10) < 10" by simp
    with False 1 show ?thesis
      by (subst decimal_digits.simps) (simp add: isdigit_digit_char)
  qed
qed

lemma decimal_digits_no_colon: "CHR '':'' \<notin> set (decimal_digits n)"
  using decimal_digits_isdigit [of n] isdigit_not_colon by (auto simp: list_all_iff)

lemma strip_zeros_subset: "set (strip_zeros ds) \<subseteq> set ds"
  by (auto simp: strip_zeros_def dest: set_dropWhileD)

lemma zfill_no_colon: "CHR '':'' \<notin> set s \<Longrightarrow> CHR '':'' \<notin> set (zfill w s)"
  by (auto simp: zfill_def)

lemma format_g12_no_colon: "CHR '':'' \<notin> set (format_g12 x)"
proof -
  define X0 where "X0 = floor_log10 x"
  define m0 where "m0 = round_half_even (x / pow10 (X0 - 11))"
  define X where "X = (if m0 = 1000000000000 then X0 + 1 else X0)"
  define m where "m = (if m0 = 1000000000000 then 100000000000 else m0)"
  define ds where "ds = strip_zeros (decimal_digits m)"
  have ds: "CHR '':'' \<notin> set ds"
    using strip_zeros_subset [of "decimal_digits m"] decimal_digits_no_colon [of m]
    by (auto simp: ds_def)
  then have t: "CHR '':'' \<notin> set (take k ds)" and d: "CHR '':'' \<notin> set (drop k ds)" for k
    by (auto dest: in_set_takeD in_set_dropD)
  have z: "CHR '':'' \<notin> set (zfill 2 (decimal_digits \<bar>X\<bar>))"
    by (intro zfill_no_colon decimal_digits_no_colon)
  have f: "format_g12 x =
     (if X < - 4 \<or> 12 \<le> X
         then take 1 ds @ (if drop 1 ds = [] then [] else ''.'' @ drop 1 ds)
              @ ''e'' @ (if X < 0 then ''-'' else ''+'') @ zfill 2 (decimal_digits \<bar>X\<bar>)
         else if 0 \<le> X
         then take (nat (X + 1)) ds @ replicate (nat (X + 1) - length ds) CHR ''0''
                  @ ''.'' @ (if drop (nat (X + 1)) ds = [] then ''0'' else drop (nat (X + 1)) ds)
         else ''0.'' @ replicate (nat (- X - 1)) CHR ''0'' @ ds)"
    unfolding format_g12_def Let_def X0_def m0_def X_def m_def ds_def ..
  show ?thesis
    unfolding f using ds t d z by simp
qed

lemma str_float_no_colon: "CHR '':'' \<notin> set (str_float x)"
  by (simp add: str_float_def format_g12_no_colon)

lemma set_py_slice: "set (py_slice xs lo hi) \<subseteq> set xs"
  by (auto simp: py_slice_def Let_def dest: in_set_takeD in_set_dropD)

lemma srt_timestamp_shape_colon: "srt_timestamp_shape ts \<Longrightarrow> CHR '':'' \<in> set ts"
proof -
  assume "srt_timestamp_shape ts"
  then have "py_slice ts (Some (- 10)) (Some (- 9)) = '':''"
    by (simp add: srt_timestamp_shape_def)
  then have "CHR '':'' \<in> set (py_slice ts (Some (- 10)) (Some (- 9)))"
    by simp
  then show ?thesis
    using set_py_slice [of ts "Some (- 10)" "Some (- 9)"] by auto
qed

text \<open>
  Whatever the row, the two timestamps that \<^verbatim>\<open>writeSrt\<close> prints for it are not of the
  shape \<^verbatim>\<open>H..H:MM:SS,mmm\<close>: the text of a float has no colon.
\<close>

lemma writeSrt_timestamp_not_shaped:
  "\<not> srt_timestamp_shape (str_float (left_ts row))
   \<and> \<not> srt_timestamp_shape (str_float (right_ts row))"
  using srt_timestamp_shape_colon [of "str_float (left_ts row)"]
    srt_timestamp_shape_colon [of "str_float (right_ts row)"]
    str_float_no_colon [of "left_ts row"] str_float_no_colon [of "right_ts row"]
  by auto

text \<open>
  Claim C7 is not met by the code. On the aligned-record path \<^verbatim>\<open>writeSrt\<close> prints the
  bounds of a row with \<^verbatim>\<open>%s\<close>, as floating-point seconds: for the two tracks below the
  output file holds \<^verbatim>\<open>1.0 --> 2.0\<close> and \<^verbatim>\<open>2.5 --> 3.0\<close>, where the claim has
  \<^verbatim>\<open>00:00:01,000 --> 00:00:02,000\<close> and \<^verbatim>\<open>00:00:02,500 --> 00:00:03,000\<close>, which is what
  the formatter makes of these times.
\<close>

theorem doWork_writes_float_seconds:
  "doWork ''1\<newline>00:00:01,000 --> 00:00:03,000\<newline>Hello\<newline>\<newline>''
     ''1\<newline>00:00:00,500 --> 00:00:02,000\<newline>Bonjour\<newline>\<newline>2\<newline>00:00:02,500 --> 00:00:04,000\<newline>Au revoir\<newline>\<newline>''
   = Inr ''1\<newline>1.0 --> 2.0\<newline>Hello\<newline>Bonjour\<newline>\<newline>2\<newline>2.5 --> 3.0\<newline>Hello\<newline>Au revoir\<newline>\<newline>''
   \<and> \<not> srt_timestamp_shape ''1.0'' \<and> \<not> srt_timestamp_shape ''2.0''
   \<and> \<not> srt_timestamp_shape ''2.5'' \<and> \<not> srt_timestamp_shape ''3.0''
   \<and> timedelta_to_srt_timestamp 1000000 = ''00:00:01,000''
   \<and> timedelta_to_srt_timestamp 2000000 = ''00:00:02,000''
   \<and> timedelta_to_srt_timestamp 2500000 = ''00:00:02,500''
   \<and> timedelta_to_srt_timestamp 3000000 = ''00:00:03,000''"
  by code_simp

end
